theory Spec2Isabelle
  imports Main "HOL-Library.Sublist"
begin

section \<open>Python values used by the mail server\<close>

text \<open>
  A Python \<open>str\<close> is a sequence of Unicode code points and a \<open>bytes\<close> object a
  sequence of octets. Both are lists of naturals here: \<open>len\<close> is \<open>length\<close>, \<open>s[i]\<close> is
  \<open>s ! i\<close> (only ever used under \<open>i < len(s)\<close>), \<open>+\<close> is \<open>@\<close>.
  An exception is a value of \<open>error\<close>; a computation that may raise returns
  \<open>error + 'a\<close>, with \<open>Inl\<close> the exception.
\<close>

type_synonym ustr = "nat list"
type_synonym bytes = "nat list"

datatype error =
    ValueError
  | BinasciiError
  | UnicodeDecodeError
  | UnicodeEncodeError
  | LookupError
  | HeaderParseError
  | AttributeError
  | TypeError
  | IMAPError

text \<open>String literals of the source, as code points.\<close>

definition AMP :: nat where "AMP = 38"      \<comment> \<open>\<open>&\<close>\<close>
definition DASH :: nat where "DASH = 45"    \<comment> \<open>\<open>-\<close>\<close>
definition COMMA :: nat where "COMMA = 44"  \<comment> \<open>\<open>,\<close>\<close>
definition SLASH :: nat where "SLASH = 47"  \<comment> \<open>\<open>/\<close>\<close>
definition EQUALS :: nat where "EQUALS = 61" \<comment> \<open>\<open>=\<close>\<close>
definition DQUOTE :: nat where "DQUOTE = 34" \<comment> \<open>the double quote\<close>
definition SPACE :: nat where "SPACE = 32"
definition NEWLINE :: nat where "NEWLINE = 10"

definition ustr_of :: "string \<Rightarrow> ustr" where
  "ustr_of cs = map (\<lambda>c. of_char c) cs"

subsection \<open>\<open>str.find\<close>, \<open>str.replace\<close>, slices\<close>

fun find_first :: "nat list \<Rightarrow> nat \<Rightarrow> nat option" where
  "find_first [] c = None"
| "find_first (x # xs) c = (if x = c then Some 0 else map_option Suc (find_first xs c))"

text \<open>\<open>s.find(c, start)\<close> for a one-character \<open>c\<close>; \<open>None\<close> is Python's \<open>-1\<close>.\<close>

definition py_find :: "ustr \<Rightarrow> nat \<Rightarrow> nat \<Rightarrow> nat option" where
  "py_find s c start =
     (if length s < start then None
      else map_option (\<lambda>k. start + k) (find_first (drop start s) c))"

text \<open>\<open>s.replace(a, b)\<close> for one-character \<open>a\<close> and \<open>b\<close>.\<close>

definition py_replace :: "ustr \<Rightarrow> nat \<Rightarrow> nat \<Rightarrow> ustr" where
  "py_replace s a b = map (\<lambda>c. if c = a then b else c) s"

text \<open>\<open>s[i:j]\<close> for \<open>0 \<le> i\<close>, \<open>0 \<le> j\<close>.\<close>

definition py_slice :: "'a list \<Rightarrow> nat \<Rightarrow> nat \<Rightarrow> 'a list" where
  "py_slice s i j = take (j - i) (drop i s)"

subsection \<open>\<open>base64.b64decode\<close>\<close>

text \<open>
  \<open>table_a2b_base64\<close> of \<open>binascii\<close>: the value of a character of the standard alphabet,
  \<open>None\<close> for every other octet.
\<close>

definition b64_value :: "nat \<Rightarrow> nat option" where
  "b64_value c =
     (if 65 \<le> c \<and> c \<le> 90 then Some (c - 65)
      else if 97 \<le> c \<and> c \<le> 122 then Some (c - 71)
      else if 48 \<le> c \<and> c \<le> 57 then Some (c + 4)
      else if c = 43 then Some 62
      else if c = 47 then Some 63
      else None)"

text \<open>
  The loop of \<open>binascii.a2b_base64\<close> in its default, non-strict mode, over the remaining
  input with the state \<open>quad_pos\<close>, \<open>leftchar\<close>, \<open>pads\<close> and the octets produced so far.
  A pad character ends the decoding once it completes a quad that holds at least two
  data characters; characters outside the alphabet are skipped; input that ends inside
  a quad raises \<open>binascii.Error\<close>.
\<close>

fun a2b_loop :: "bytes \<Rightarrow> nat \<Rightarrow> nat \<Rightarrow> nat \<Rightarrow> bytes \<Rightarrow> error + bytes" where
  "a2b_loop [] quad_pos leftchar pads out =
     (if quad_pos \<noteq> 0 then Inl BinasciiError else Inr out)"
| "a2b_loop (c # cs) quad_pos leftchar pads out =
     (if c = EQUALS then
        (if 2 \<le> quad_pos then
           (if 4 \<le> quad_pos + (pads + 1) then Inr out
            else a2b_loop cs quad_pos leftchar (pads + 1) out)
         else a2b_loop cs quad_pos leftchar pads out)
      else
        (case b64_value c of
           None \<Rightarrow> a2b_loop cs quad_pos leftchar pads out
         | Some v \<Rightarrow>
             (if quad_pos = 0 then a2b_loop cs 1 v 0 out
              else if quad_pos = 1 then
                a2b_loop cs 2 (v mod 16) 0 (out @ [(leftchar * 4 + v div 16) mod 256])
              else if quad_pos = 2 then
                a2b_loop cs 3 (v mod 4) 0 (out @ [(leftchar * 16 + v div 4) mod 256])
              else
                a2b_loop cs 0 0 0 (out @ [(leftchar * 64 + v) mod 256]))))"

definition a2b_base64 :: "bytes \<Rightarrow> error + bytes" where
  "a2b_base64 data = a2b_loop data 0 0 0 []"

text \<open>
  \<open>base64.b64decode(s)\<close> on a \<open>str\<close>: the string is first encoded as ASCII, and a
  code point above 127 raises \<open>ValueError\<close> (not \<open>binascii.Error\<close>, which is a subclass of
  it); then \<open>a2b_base64\<close> runs.
\<close>

definition b64decode :: "ustr \<Rightarrow> error + bytes" where
  "b64decode s = (if list_ex (\<lambda>c. 128 \<le> c) s then Inl ValueError else a2b_base64 s)"

subsection \<open>\<open>bytes.decode('utf-16be')\<close>\<close>

text \<open>
  Strict decoding of big-endian UTF-16: an odd number of octets, a low surrogate that
  does not follow a high one and a high surrogate that is not followed by a low one
  all raise \<open>UnicodeDecodeError\<close>.
\<close>

fun utf16be_decode :: "bytes \<Rightarrow> error + ustr" where
  "utf16be_decode [] = Inr []"
| "utf16be_decode [b] = Inl UnicodeDecodeError"
| "utf16be_decode (h # l # rest) =
     (let u = h * 256 + l in
      if u < 0xD800 \<or> 0xDFFF < u then
        (case utf16be_decode rest of Inl e \<Rightarrow> Inl e | Inr t \<Rightarrow> Inr (u # t))
      else if 0xDC00 \<le> u then Inl UnicodeDecodeError
      else
        (case rest of
           h2 # l2 # rest2 \<Rightarrow>
             (let u2 = h2 * 256 + l2 in
              if 0xDC00 \<le> u2 \<and> u2 \<le> 0xDFFF then
                (case utf16be_decode rest2 of
                   Inl e \<Rightarrow> Inl e
                 | Inr t \<Rightarrow> Inr ((0x10000 + (u - 0xD800) * 1024 + (u2 - 0xDC00)) # t))
              else Inl UnicodeDecodeError)
         | _ \<Rightarrow> Inl UnicodeDecodeError))"

subsection \<open>UTF-8: \<open>bytes.decode\<close> and \<open>str.encode\<close>\<close>

definition REPLACEMENT :: nat where "REPLACEMENT = 0xFFFD"

definition is_continuation :: "nat \<Rightarrow> bool" where
  "is_continuation b \<longleftrightarrow> 0x80 \<le> b \<and> b < 0xC0"

text \<open>
  One step of CPython's UTF-8 decoder, on the first octet \<open>ch\<close> and the octets after
  it: the code point decoded (\<open>None\<close> for a decoding error) and the number of octets
  consumed after the first. An invalid start octet and an invalid continuation octet
  are errors of their own (with the valid octets before them); a sequence cut off by the
  end of the input is one error as a whole. Overlong forms, surrogates and code points
  above \<open>0x10FFFF\<close> are rejected at the second octet.
\<close>

definition utf8_step2 :: "nat \<Rightarrow> bytes \<Rightarrow> nat option \<times> nat" where
  "utf8_step2 ch rest =
     (case rest of
        [] \<Rightarrow> (None, 0)
      | ch2 # _ \<Rightarrow>
          if \<not> is_continuation ch2 then (None, 0)
          else (Some (ch * 64 + ch2 - (0xC0 * 64 + 0x80)), 1))"

definition utf8_step3 :: "nat \<Rightarrow> bytes \<Rightarrow> nat option \<times> nat" where
  "utf8_step3 ch rest =
     (case rest of
        [] \<Rightarrow> (None, 0)
      | [ch2] \<Rightarrow>
          if \<not> is_continuation ch2 \<or> (if ch2 < 0xA0 then ch = 0xE0 else ch = 0xED)
          then (None, 0) else (None, 1)
      | ch2 # ch3 # _ \<Rightarrow>
          if \<not> is_continuation ch2 then (None, 0)
          else if ch = 0xE0 \<and> ch2 < 0xA0 then (None, 0)
          else if ch = 0xED \<and> 0xA0 \<le> ch2 then (None, 0)
          else if \<not> is_continuation ch3 then (None, 1)
          else (Some (ch * 4096 + ch2 * 64 + ch3 - (0xE0 * 4096 + 0x80 * 64 + 0x80)), 2))"

definition utf8_step4 :: "nat \<Rightarrow> bytes \<Rightarrow> nat option \<times> nat" where
  "utf8_step4 ch rest =
     (case rest of
        [] \<Rightarrow> (None, 0)
      | [ch2] \<Rightarrow>
          if \<not> is_continuation ch2 \<or> (if ch2 < 0x90 then ch = 0xF0 else ch = 0xF4)
          then (None, 0) else (None, 1)
      | [ch2, ch3] \<Rightarrow>
          if \<not> is_continuation ch2 \<or> (if ch2 < 0x90 then ch = 0xF0 else ch = 0xF4)
          then (None, 0)
          else if \<not> is_continuation ch3 then (None, 1)
          else (None, 2)
      | ch2 # ch3 # ch4 # _ \<Rightarrow>
          if \<not> is_continuation ch2 then (None, 0)
          else if ch = 0xF0 \<and> ch2 < 0x90 then (None, 0)
          else if ch = 0xF4 \<and> 0x90 \<le> ch2 then (None, 0)
          else if \<not> is_continuation ch3 then (None, 1)
          else if \<not> is_continuation ch4 then (None, 2)
          else (Some (ch * 262144 + ch2 * 4096 + ch3 * 64 + ch4
                        - (0xF0 * 262144 + 0x80 * 4096 + 0x80 * 64 + 0x80)), 3))"

definition utf8_step :: "nat \<Rightarrow> bytes \<Rightarrow> nat option \<times> nat" where
  "utf8_step ch rest =
     (if ch < 0x80 then (Some ch, 0)
      else if ch < 0xC2 then (None, 0)
      else if ch < 0xE0 then utf8_step2 ch rest
      else if ch < 0xF0 then utf8_step3 ch rest
      else if ch < 0xF5 then utf8_step4 ch rest
      else (None, 0))"

text \<open>\<open>b.decode('utf-8', errors='replace')\<close>: every error becomes one \<open>U+FFFD\<close>.\<close>

fun utf8_replace :: "bytes \<Rightarrow> ustr" where
  "utf8_replace [] = []"
| "utf8_replace (ch # rest) =
     (case fst (utf8_step ch rest) of None \<Rightarrow> REPLACEMENT | Some cp \<Rightarrow> cp)
       # utf8_replace (drop (snd (utf8_step ch rest)) rest)"

text \<open>\<open>b.decode()\<close>: strict UTF-8, the first error raises \<open>UnicodeDecodeError\<close>.\<close>

fun utf8_decode :: "bytes \<Rightarrow> error + ustr" where
  "utf8_decode [] = Inr []"
| "utf8_decode (ch # rest) =
     (case fst (utf8_step ch rest) of
        None \<Rightarrow> Inl UnicodeDecodeError
      | Some cp \<Rightarrow>
          (case utf8_decode (drop (snd (utf8_step ch rest)) rest) of
             Inl e \<Rightarrow> Inl e
           | Inr text \<Rightarrow> Inr (cp # text)))"

text \<open>\<open>s.encode()\<close>: UTF-8; a surrogate code point raises \<open>UnicodeEncodeError\<close>.\<close>

definition utf8_encode_char :: "nat \<Rightarrow> error + bytes" where
  "utf8_encode_char cp =
     (if cp < 0x80 then Inr [cp]
      else if cp < 0x800 then Inr [0xC0 + cp div 64, 0x80 + cp mod 64]
      else if cp < 0x10000 then
        (if 0xD800 \<le> cp \<and> cp \<le> 0xDFFF then Inl UnicodeEncodeError
         else Inr [0xE0 + cp div 4096, 0x80 + cp div 64 mod 64, 0x80 + cp mod 64])
      else Inr [0xF0 + cp div 262144, 0x80 + cp div 4096 mod 64,
                0x80 + cp div 64 mod 64, 0x80 + cp mod 64])"

fun utf8_encode :: "ustr \<Rightarrow> error + bytes" where
  "utf8_encode [] = Inr []"
| "utf8_encode (cp # s) =
     (case utf8_encode_char cp of
        Inl e \<Rightarrow> Inl e
      | Inr bs \<Rightarrow> (case utf8_encode s of Inl e \<Rightarrow> Inl e | Inr rest \<Rightarrow> Inr (bs @ rest)))"

section \<open>The modified UTF-7 folder-name decoder\<close>

text \<open>
  The \<open>try\<close> block of \<open>decode_modified_utf7\<close> (lines 176 to 191) on the raw payload
  \<open>s[i+1:j]\<close>: pad, Base64-decode, decode as UTF-16BE. The handler catches
  \<open>UnicodeDecodeError\<close> and \<open>binascii.Error\<close> only and then yields the literal
  \<open>&payload-\<close>; any other exception leaves the function.
\<close>

definition decode_payload :: "ustr \<Rightarrow> error + ustr" where
  "decode_payload raw =
     (let encoded = py_replace raw COMMA SLASH;
          padding = length encoded mod 4;
          encoded = (if 0 < padding then encoded @ replicate (4 - padding) EQUALS else encoded);
          attempt = (case b64decode encoded of
                       Inl e \<Rightarrow> Inl e
                     | Inr decoded_bytes \<Rightarrow> utf16be_decode decoded_bytes)
      in case attempt of
           Inr decoded_text \<Rightarrow> Inr decoded_text
         | Inl UnicodeDecodeError \<Rightarrow> Inr ([AMP] @ raw @ [DASH])
         | Inl BinasciiError \<Rightarrow> Inr ([AMP] @ raw @ [DASH])
         | Inl e \<Rightarrow> Inl e)"

lemma find_first_bound: "find_first xs c = Some k \<Longrightarrow> k < length xs"
  by (induction xs arbitrary: k) (auto split: if_splits)

lemma py_find_bounds: "py_find s c start = Some j \<Longrightarrow> start \<le> j \<and> j < length s"
  by (auto simp: py_find_def split: if_splits dest!: find_first_bound)

text \<open>The \<open>while i < len(s)\<close> loop, with the variables \<open>i\<close> and \<open>result\<close>.\<close>

function decode_loop :: "ustr \<Rightarrow> nat \<Rightarrow> ustr \<Rightarrow> error + ustr" where
  "decode_loop s i result =
     (if i < length s then
        (if s ! i = AMP \<and> i + 1 < length s then
           (case py_find s DASH (i + 1) of
              None \<Rightarrow> decode_loop s (i + 1) (result @ [AMP])
            | Some j \<Rightarrow>
                (if j = i + 1 then decode_loop s (i + 2) (result @ [AMP])
                 else
                   (case decode_payload (py_slice s (i + 1) j) of
                      Inl e \<Rightarrow> Inl e
                    | Inr text \<Rightarrow> decode_loop s (j + 1) (result @ text))))
         else decode_loop s (i + 1) (result @ [s ! i]))
      else Inr result)"
  by pat_completeness auto
termination
  by (relation "measure (\<lambda>(s, i, result). length s - i)")
     (auto dest!: py_find_bounds)

declare decode_loop.simps [simp del]

definition decode_modified_utf7 :: "ustr \<Rightarrow> error + ustr" where
  "decode_modified_utf7 s = (if s = [] then Inr s else decode_loop s 0 [])"

section \<open>The header decoder\<close>

text \<open>
  \<open>email.header.decode_header\<close> returns a list of pairs \<open>(value, encoding)\<close>: the value is
  \<open>bytes\<close> or \<open>str\<close>, the encoding a charset name or \<open>None\<close>. It raises
  \<open>HeaderParseError\<close> on an encoded word whose Base64 payload cannot be decoded (for
  example \<open>=?utf-8?b?a?=\<close>), so its outcome is a value of \<open>error + segment list\<close>.
\<close>

datatype hvalue = HBytes bytes | HStr ustr

type_synonym segment = "hvalue \<times> ustr option"

text \<open>
  The branch of \<open>decode_header\<close> for an encoded word with the transfer encoding \<open>b\<close>
  (lines 119 to 128 of \<open>email/header.py\<close>), on an ASCII payload: the payload gets its
  missing padding, \<open>email.base64mime.decode\<close> returns no octets for an empty string and
  runs \<open>a2b_base64\<close> otherwise, and a \<open>binascii.Error\<close> is raised again as
  \<open>HeaderParseError\<close>.
\<close>

definition decode_b_word :: "ustr \<Rightarrow> error + bytes" where
  "decode_b_word encoded_string =
     (let paderr = length encoded_string mod 4;
          encoded_string =
            (if paderr \<noteq> 0 then encoded_string @ take (4 - paderr) [EQUALS, EQUALS, EQUALS]
             else encoded_string)
      in if encoded_string = [] then Inr []
         else (case a2b_base64 encoded_string of
                 Inl e \<Rightarrow> Inl HeaderParseError
               | Inr word \<Rightarrow> Inr word))"

text \<open>
  The outcome of \<open>decode_header\<close> on a header that is one encoded word
  \<open>=?charset?b?payload?=\<close>, the charset name in lower case.
\<close>

definition decode_header_b_word :: "ustr \<Rightarrow> ustr \<Rightarrow> error + segment list" where
  "decode_header_b_word charset payload =
     (case decode_b_word payload of
        Inl e \<Rightarrow> Inl e
      | Inr word \<Rightarrow> Inr [(HBytes word, Some charset)])"

text \<open>
  \<open>value.decode(encoding)\<close> depends on Python's codec registry, which is not part of the
  repository: it is the parameter \<open>codec\<close>, from a charset name and the octets to the
  text or to the exception raised (\<open>LookupError\<close> for an unknown charset,
  \<open>UnicodeDecodeError\<close> for octets the charset rejects).
\<close>

type_synonym codec = "ustr \<Rightarrow> bytes \<Rightarrow> error + ustr"

text \<open>Truth value of \<open>encoding\<close> in \<open>if encoding:\<close>: \<open>None\<close> and the empty string are false.\<close>

fun truthy :: "ustr option \<Rightarrow> bool" where
  "truthy None = False"
| "truthy (Some e) = (e \<noteq> [])"

text \<open>
  The body of the \<open>for\<close> loop of \<open>decode_email_header\<close> (lines 99 to 108): the text added
  to \<open>header_text\<close> for one pair. The bare \<open>except\<close> catches every exception of the
  \<open>try\<close> block.
\<close>

fun decode_segment :: "codec \<Rightarrow> segment \<Rightarrow> ustr" where
  "decode_segment codec (HBytes v, encoding) =
     (case (if truthy encoding then codec (the encoding) v else Inr (utf8_replace v)) of
        Inr text \<Rightarrow> text
      | Inl e \<Rightarrow> utf8_replace v)"
| "decode_segment codec (HStr v, encoding) = v"

text \<open>
  \<open>decode_email_header\<close>, given the outcome of \<open>decode_header(header)\<close> on line 95. That
  call is outside every \<open>try\<close>, so its exception leaves the function.
\<close>

definition decode_email_header :: "codec \<Rightarrow> error + segment list \<Rightarrow> error + ustr" where
  "decode_email_header codec decoded_headers =
     (case decoded_headers of
        Inl e \<Rightarrow> Inl e
      | Inr segments \<Rightarrow>
          Inr (foldl (\<lambda>header_text seg. header_text @ decode_segment codec seg) [] segments))"

section \<open>The body extractor\<close>

text \<open>\<open>needle in haystack\<close> for strings.\<close>

fun py_in :: "ustr \<Rightarrow> ustr \<Rightarrow> bool" where
  "py_in needle [] = (needle = [])"
| "py_in needle (c # cs) = (prefix needle (c # cs) \<or> py_in needle cs)"

text \<open>
  A parsed message, as \<open>email.message_from_bytes\<close> hands it over: the result of
  \<open>get_content_type()\<close>, the \<open>Content-Disposition\<close> header if there is one, and either the
  outcome of \<open>get_payload(decode=True)\<close> for a part that is not multipart, or the list of
  sub-parts of a multipart one.
\<close>

datatype message =
    Part ustr "ustr option" "error + bytes option"
  | Multipart ustr "ustr option" "message list"

fun is_multipart :: "message \<Rightarrow> bool" where
  "is_multipart (Part ct cd p) = False"
| "is_multipart (Multipart ct cd subparts) = True"

fun get_content_type :: "message \<Rightarrow> ustr" where
  "get_content_type (Part ct cd p) = ct"
| "get_content_type (Multipart ct cd subparts) = ct"

text \<open>\<open>str(part.get("Content-Disposition"))\<close>: a missing header gives the text \<open>None\<close>.\<close>

fun content_disposition :: "message \<Rightarrow> ustr" where
  "content_disposition (Part ct (Some cd) p) = cd"
| "content_disposition (Part ct None p) = ustr_of ''None''"
| "content_disposition (Multipart ct (Some cd) subparts) = cd"
| "content_disposition (Multipart ct None subparts) = ustr_of ''None''"

text \<open>\<open>get_payload(decode=True)\<close>: \<open>None\<close> for a multipart message.\<close>

fun get_payload :: "message \<Rightarrow> error + bytes option" where
  "get_payload (Part ct cd p) = p"
| "get_payload (Multipart ct cd subparts) = Inr None"

text \<open>\<open>msg.walk()\<close>: the message itself, then its sub-parts depth first.\<close>

fun walk :: "message \<Rightarrow> message list" where
  "walk (Part ct cd p) = [Part ct cd p]"
| "walk (Multipart ct cd subparts) = Multipart ct cd subparts # concat (map walk subparts)"

definition TEXT_PLAIN :: ustr where "TEXT_PLAIN = ustr_of ''text/plain''"
definition TEXT_HTML :: ustr where "TEXT_HTML = ustr_of ''text/html''"
definition ATTACHMENT :: ustr where "ATTACHMENT = ustr_of ''attachment''"
definition COULD_NOT_DECODE :: ustr where
  "COULD_NOT_DECODE = ustr_of ''Could not decode email body''"

text \<open>
  One iteration of the loop over \<open>msg.walk()\<close> (lines 120 to 137), on the pair
  \<open>(text_content, html_content)\<close>. An exception of \<open>get_payload\<close> is swallowed by the
  \<open>except: pass\<close>; \<open>if body\<close> is false for \<open>None\<close> and for empty octets.
\<close>

definition body_step :: "ustr \<times> ustr \<Rightarrow> message \<Rightarrow> ustr \<times> ustr" where
  "body_step acc part =
     (let content_type = get_content_type part;
          content_disposition = content_disposition part
      in if py_in ATTACHMENT content_disposition then acc
         else
           (case get_payload part of
              Inl e \<Rightarrow> acc
            | Inr None \<Rightarrow> acc
            | Inr (Some body) \<Rightarrow>
                if body \<noteq> [] then
                  (if content_type = TEXT_PLAIN then (utf8_replace body, snd acc)
                   else if content_type = TEXT_HTML then (fst acc, utf8_replace body)
                   else acc)
                else acc))"

text \<open>
  \<open>get_email_body\<close>. In the branch for a message that is not multipart, \<open>None.decode\<close>
  raises \<open>AttributeError\<close>; the \<open>except\<close> turns every exception into the sentinel.
\<close>

definition get_email_body :: "message \<Rightarrow> error + ustr" where
  "get_email_body msg =
     (if is_multipart msg then
        (let (text_content, html_content) = foldl body_step ([], []) (walk msg)
         in Inr (if text_content \<noteq> [] then text_content else html_content))
      else
        (case (case get_payload msg of
                 Inl e \<Rightarrow> Inl e
               | Inr None \<Rightarrow> Inl AttributeError
               | Inr (Some body) \<Rightarrow> Inr (utf8_replace body)) of
           Inr text \<Rightarrow> Inr text
         | Inl e \<Rightarrow> Inr COULD_NOT_DECODE))"

text \<open>
  The loop read part by part, for the proofs: one iteration overwrites the accumulator
  of the content type \<open>ct\<close> exactly when the test of line 124 lets the part through
  (the text of its disposition does not contain the string \<open>attachment\<close>, compared as
  it is written), the content type is \<open>ct\<close> and the decoded payload is not empty.
  \<open>taken_texts ct parts\<close> are the texts so written, in order. This is the test that the
  code makes, not a reading of what an attachment is.
\<close>

definition taken_for :: "ustr \<Rightarrow> message \<Rightarrow> bool" where
  "taken_for ct part \<longleftrightarrow>
     \<not> py_in ATTACHMENT (content_disposition part) \<and> get_content_type part = ct \<and>
     (case get_payload part of Inr (Some body) \<Rightarrow> body \<noteq> [] | _ \<Rightarrow> False)"

definition decoded_payload :: "message \<Rightarrow> ustr" where
  "decoded_payload part =
     (case get_payload part of Inr (Some body) \<Rightarrow> utf8_replace body | _ \<Rightarrow> [])"

definition taken_texts :: "ustr \<Rightarrow> message list \<Rightarrow> ustr list" where
  "taken_texts ct parts = map decoded_payload (filter (taken_for ct) parts)"

section \<open>The connection manager\<close>

text \<open>
  The IMAP server and the process environment are outside the program. A connection
  object is a handle; the verbs sent so far are the \<open>history\<close>, and the reply to a verb
  is a function of the history before it, so that the server may answer the same verb
  differently at different times. A verb of \<open>imaplib\<close> either raises or returns a status
  with its data.
\<close>

type_synonym conn = nat

datatype event =
    EOpen ustr nat
  | ELogin conn ustr ustr
  | ENoop conn
  | EList conn
  | ESelect conn ustr
  | ESearch conn ustr
  | EFetch conn bytes

text \<open>An element of the data returned by \<open>list()\<close>: octets, or \<open>None\<close> or a tuple.\<close>

datatype folder_item = FolderBytes bytes | FolderOther

text \<open>
  What \<open>email.message_from_bytes\<close> makes of a fetched message, as far as the tools read
  it: for each header, whether it is present and the outcome of \<open>decode_header\<close> on it,
  and the MIME tree.
\<close>

record email_message =
  hdr_subject :: "(error + segment list) option"
  hdr_from :: "(error + segment list) option"
  hdr_to :: "(error + segment list) option"
  hdr_date :: "(error + segment list) option"
  mime :: message

record world =
  env_YAHOO_EMAIL :: "ustr option"
  env_YAHOO_PASSWORD :: "ustr option"
  imap_open :: "event list \<Rightarrow> ustr \<Rightarrow> nat \<Rightarrow> error + conn"
  imap_login :: "event list \<Rightarrow> conn \<Rightarrow> ustr \<Rightarrow> ustr \<Rightarrow> error + unit"
  imap_noop :: "event list \<Rightarrow> conn \<Rightarrow> error + ustr"
  imap_list :: "event list \<Rightarrow> conn \<Rightarrow> error + ustr \<times> folder_item list"
  imap_select :: "event list \<Rightarrow> conn \<Rightarrow> ustr \<Rightarrow> error + ustr"
  imap_search :: "event list \<Rightarrow> conn \<Rightarrow> ustr \<Rightarrow> error + ustr \<times> bytes option"
  imap_fetch :: "event list \<Rightarrow> conn \<Rightarrow> bytes \<Rightarrow> error + ustr \<times> (error + email_message)"
  py_codec :: codec
  unicode_upper :: "nat \<Rightarrow> ustr"

text \<open>
  \<open>imap_search\<close> gives the status and \<open>messages[0]\<close> (octets or \<open>None\<close>); \<open>imap_fetch\<close> the
  status and the outcome of \<open>email.message_from_bytes(msg_data[0][1])\<close>. \<open>py_codec\<close> is
  the codec registry and \<open>unicode_upper\<close> the upper-case mapping of the Unicode database
  for the code points above 127.
\<close>

record EmailConfig =
  username :: ustr
  password :: ustr
  imap_server :: ustr
  imap_port :: nat
  connection :: "conn option"

datatype log_entry =
    Error_credentials_not_found
  | Info_connected ustr
  | Error_failed_to_connect error
  | Info_raw_folder ustr
  | Info_before_decoding ustr
  | Info_after_decoding ustr
  | Error_could_not_parse ustr
  | Error_processing_folder error
  | Info_final_folder_list "ustr list"
  | Error_listing_folders error
  | Error_searching_emails error
  | Error_reading_email error

text \<open>
  The global \<open>email_config\<close>, with the verbs sent and the calls of \<open>ctx.info\<close> and
  \<open>ctx.error\<close> so far.
\<close>

record session =
  email_config :: "EmailConfig option"
  history :: "event list"
  log :: "log_entry list"

definition OK :: ustr where "OK = ustr_of ''OK''"
definition DEFAULT_SERVER :: ustr where "DEFAULT_SERVER = ustr_of ''imap.mail.yahoo.co.jp''"
definition DEFAULT_PORT :: nat where "DEFAULT_PORT = 993"

definition send :: "event \<Rightarrow> session \<Rightarrow> session" where
  "send ev s = s\<lparr>history := history s @ [ev]\<rparr>"

definition ctx_log :: "log_entry \<Rightarrow> session \<Rightarrow> session" where
  "ctx_log entry s = s\<lparr>log := log s @ [entry]\<rparr>"

text \<open>
  The connection of the global configuration, as \<open>email_config.connection\<close> finds it;
  \<open>None\<close> when there is no configuration or no connection.
\<close>

definition current_connection :: "session \<Rightarrow> conn option" where
  "current_connection s =
     (case email_config s of None \<Rightarrow> None | Some cfg \<Rightarrow> connection cfg)"

text \<open>
  Lines 55 to 63 of \<open>connect_to_email\<close>: the liveness probe. \<open>True\<close> is the early
  \<open>return True\<close>; an exception of \<open>noop\<close> is swallowed.
\<close>

definition probe :: "world \<Rightarrow> session \<Rightarrow> bool \<times> session" where
  "probe w s =
     (case current_connection s of
        None \<Rightarrow> (False, s)
      | Some c \<Rightarrow>
          (case imap_noop w (history s) c of
             Inl e \<Rightarrow> (False, send (ENoop c) s)
           | Inr status \<Rightarrow> (status = OK, send (ENoop c) s)))"

text \<open>Lines 65 to 90: the fresh login.\<close>

definition login :: "world \<Rightarrow> session \<Rightarrow> bool \<times> session" where
  "login w s =
     (if \<not> truthy (env_YAHOO_EMAIL w) \<or> \<not> truthy (env_YAHOO_PASSWORD w) then
        (False, ctx_log Error_credentials_not_found s)
      else
        (let user = the (env_YAHOO_EMAIL w);
             pass = the (env_YAHOO_PASSWORD w);
             host = (case email_config s of None \<Rightarrow> DEFAULT_SERVER | Some cfg \<Rightarrow> imap_server cfg);
             port = (case email_config s of None \<Rightarrow> DEFAULT_PORT | Some cfg \<Rightarrow> imap_port cfg);
             s1 = send (EOpen host port) s
         in case imap_open w (history s) host port of
              Inl e \<Rightarrow> (False, ctx_log (Error_failed_to_connect e) s1)
            | Inr c \<Rightarrow>
                (let s2 = send (ELogin c user pass) s1
                 in case imap_login w (history s1) c user pass of
                      Inl e \<Rightarrow> (False, ctx_log (Error_failed_to_connect e) s2)
                    | Inr u \<Rightarrow>
                        (True,
                         ctx_log (Info_connected user)
                           (s2\<lparr>email_config :=
                                 Some \<lparr>username = user, password = pass,
                                       imap_server = DEFAULT_SERVER, imap_port = DEFAULT_PORT,
                                       connection = Some c\<rparr>\<rparr>)))))"

definition connect_to_email :: "world \<Rightarrow> session \<Rightarrow> bool \<times> session" where
  "connect_to_email w s =
     (let (alive, s1) = probe w s in if alive then (True, s1) else login w s1)"

section \<open>The tools\<close>

datatype summary = Summary (sm_id: ustr) (sm_subject: ustr) (sm_from: ustr) (sm_date: ustr)

record email_data =
  ed_id :: ustr
  ed_subject :: ustr
  ed_from :: ustr
  ed_to :: ustr
  ed_date :: ustr
  ed_body :: ustr

text \<open>
  What a tool returns: one of its fixed messages, or the value it hands to
  \<open>json.dumps\<close>.
\<close>

datatype tool_result =
    Failed_to_connect
  | Failed_to_retrieve_folders ustr
  | Folders "ustr list"
  | Error_listing error
  | Failed_to_select_folder ustr
  | Search_failed ustr
  | No_emails_found ustr
  | Results "summary list" nat ustr
  | Error_searching error
  | Failed_to_fetch_email ustr
  | Email email_data
  | Error_reading error

subsection \<open>\<open>list_folders\<close>\<close>

text \<open>
  \<open>re.search(r'"([^"]+)"$', folder_str)\<close> and its group 1. \<open>$\<close> matches at the end of the
  string and before a newline that ends it, so the closing quote is the last character
  of the string without that newline; the characters of the group are not quotes, so the
  opening quote is the nearest one before, and the group must not be empty.
\<close>

definition trailing_quoted :: "ustr \<Rightarrow> ustr option" where
  "trailing_quoted s =
     (let line = (if s \<noteq> [] \<and> last s = NEWLINE then butlast s else s)
      in case rev line of
           [] \<Rightarrow> None
         | q # before \<Rightarrow>
             if q \<noteq> DQUOTE then None
             else
               (let name = takeWhile (\<lambda>c. c \<noteq> DQUOTE) before;
                    opening = dropWhile (\<lambda>c. c \<noteq> DQUOTE) before
                in if name = [] \<or> opening = [] then None else Some (rev name)))"

text \<open>\<open>folder_str.split(' "')\<close>, with the piece collected so far.\<close>

fun split_space_quote :: "ustr \<Rightarrow> ustr \<Rightarrow> ustr list" where
  "split_space_quote piece (a # b # rest) =
     (if a = SPACE \<and> b = DQUOTE then piece # split_space_quote [] rest
      else split_space_quote (piece @ [a]) (b # rest))"
| "split_space_quote piece [a] = [piece @ [a]]"
| "split_space_quote piece [] = [piece]"

text \<open>\<open>s.strip('"')\<close>.\<close>

definition strip_quotes :: "ustr \<Rightarrow> ustr" where
  "strip_quotes s =
     rev (dropWhile (\<lambda>c. c = DQUOTE) (rev (dropWhile (\<lambda>c. c = DQUOTE) s)))"

text \<open>
  The body of the loop over \<open>folders\<close> (lines 217 to 249): the name appended to
  \<open>folder_list\<close>, if any, and the log entries. Whatever is raised inside is caught by
  \<open>except Exception\<close> and the element is skipped.
\<close>

definition parse_folder :: "folder_item \<Rightarrow> ustr option \<times> log_entry list" where
  "parse_folder folder =
     (case folder of
        FolderOther \<Rightarrow> (None, [Error_processing_folder AttributeError])
      | FolderBytes raw \<Rightarrow>
          (let folder_str = utf8_replace raw in
           case trailing_quoted folder_str of
             Some folder_name \<Rightarrow>
               (case decode_modified_utf7 folder_name of
                  Inl e \<Rightarrow>
                    (None, [Info_raw_folder folder_str, Info_before_decoding folder_name,
                            Error_processing_folder e])
                | Inr decoded_name \<Rightarrow>
                    (Some decoded_name,
                     [Info_raw_folder folder_str, Info_before_decoding folder_name,
                      Info_after_decoding decoded_name]))
           | None \<Rightarrow>
               (let folder_parts = split_space_quote [] folder_str in
                if 2 \<le> length folder_parts then
                  (case decode_modified_utf7 (strip_quotes (last folder_parts)) of
                     Inl e \<Rightarrow> (None, [Info_raw_folder folder_str, Error_processing_folder e])
                   | Inr decoded_name \<Rightarrow> (Some decoded_name, [Info_raw_folder folder_str]))
                else (None, [Info_raw_folder folder_str, Error_could_not_parse folder_str]))))"

definition folder_step :: "ustr list \<times> log_entry list \<Rightarrow> folder_item \<Rightarrow> ustr list \<times> log_entry list" where
  "folder_step acc folder =
     (case parse_folder folder of
        (None, entries) \<Rightarrow> (fst acc, snd acc @ entries)
      | (Some name, entries) \<Rightarrow> (fst acc @ [name], snd acc @ entries))"

definition folder_names :: "folder_item list \<Rightarrow> ustr list" where
  "folder_names folders = fst (foldl folder_step ([], []) folders)"

text \<open>What one element of \<open>folders\<close> contributes to \<open>folder_list\<close>.\<close>

definition folder_entry :: "folder_item \<Rightarrow> ustr list" where
  "folder_entry folder = (case fst (parse_folder folder) of None \<Rightarrow> [] | Some name \<Rightarrow> [name])"

definition list_folders :: "world \<Rightarrow> session \<Rightarrow> tool_result \<times> session" where
  "list_folders w s =
     (let (connected, s1) = connect_to_email w s in
      if \<not> connected then (Failed_to_connect, s1)
      else
        (case current_connection s1 of
           None \<Rightarrow> (Error_listing AttributeError, ctx_log (Error_listing_folders AttributeError) s1)
         | Some c \<Rightarrow>
             (let s2 = send (EList c) s1 in
              case imap_list w (history s1) c of
                Inl e \<Rightarrow> (Error_listing e, ctx_log (Error_listing_folders e) s2)
              | Inr (status, folders) \<Rightarrow>
                  if status \<noteq> OK then (Failed_to_retrieve_folders status, s2)
                  else
                    (let (folder_list, entries) = foldl folder_step ([], []) folders
                     in (Folders folder_list,
                         s2\<lparr>log := log s2 @ entries @ [Info_final_folder_list folder_list]\<rparr>)))))"

subsection \<open>\<open>search_emails\<close>\<close>

text \<open>Sequencing of computations that may raise.\<close>

definition and_then :: "error + 'a \<Rightarrow> ('a \<Rightarrow> error + 'b) \<Rightarrow> error + 'b" where
  "and_then r f = (case r of Inl e \<Rightarrow> Inl e | Inr x \<Rightarrow> f x)"

text \<open>
  \<open>query.upper()\<close>: the letters \<open>a\<close> to \<open>z\<close> become \<open>A\<close> to \<open>Z\<close>, the other ASCII
  characters stay, and a code point above 127 becomes what the Unicode database says
  (possibly several characters).
\<close>

definition ascii_upper :: "nat \<Rightarrow> nat" where
  "ascii_upper c = (if 97 \<le> c \<and> c \<le> 122 then c - 32 else c)"

definition py_upper :: "(nat \<Rightarrow> ustr) \<Rightarrow> ustr \<Rightarrow> ustr" where
  "py_upper table s = concat (map (\<lambda>c. if c < 128 then [ascii_upper c] else table c) s)"

definition KEYWORDS :: "ustr list" where
  "KEYWORDS = map ustr_of
     [''FROM'', ''TO'', ''SUBJECT'', ''BODY'', ''TEXT'', ''SINCE'', ''BEFORE'', ''ON'']"

definition ALL_QUERY :: ustr where "ALL_QUERY = ustr_of ''ALL''"

text \<open>Lines 280 to 283: the query handed to the search verb.\<close>

definition imap_query_of :: "world \<Rightarrow> ustr \<Rightarrow> ustr" where
  "imap_query_of w query =
     (if \<not> list_ex (\<lambda>x. py_in x (py_upper (unicode_upper w) query)) KEYWORDS then ALL_QUERY
      else query)"

text \<open>\<open>messages[0].split()\<close>: the maximal runs of octets that are not ASCII whitespace.\<close>

definition is_space :: "nat \<Rightarrow> bool" where
  "is_space b \<longleftrightarrow> b = 32 \<or> (9 \<le> b \<and> b \<le> 13)"

fun split_whitespace :: "bytes \<Rightarrow> bytes \<Rightarrow> bytes list" where
  "split_whitespace word [] = (if word = [] then [] else [word])"
| "split_whitespace word (b # bs) =
     (if is_space b then
        (if word = [] then split_whitespace [] bs else word # split_whitespace [] bs)
      else split_whitespace (word @ [b]) bs)"

text \<open>\<open>xs[start:]\<close> for an integer \<open>start\<close>: a negative one counts from the end.\<close>

definition py_slice_from :: "'a list \<Rightarrow> int \<Rightarrow> 'a list" where
  "py_slice_from xs start =
     (if start < 0 then drop (nat (max 0 (int (length xs) + start))) xs
      else drop (nat start) xs)"

text \<open>Line 294: \<open>message_ids[-min(limit, len(message_ids)):]\<close>.\<close>

definition limit_ids :: "int \<Rightarrow> bytes list \<Rightarrow> bytes list" where
  "limit_ids limit message_ids =
     py_slice_from message_ids (- min limit (int (length message_ids)))"

text \<open>
  \<open>decode_header(msg.get(name, default))\<close>: the default of an absent header has no
  encoded word, and \<open>decode_header\<close> returns it as one \<open>str\<close> segment.
\<close>

definition header_or :: "ustr \<Rightarrow> (error + segment list) option \<Rightarrow> error + segment list" where
  "header_or fallback h =
     (case h of None \<Rightarrow> Inr [(HStr fallback, None)] | Some outcome \<Rightarrow> outcome)"

definition NO_SUBJECT :: ustr where "NO_SUBJECT = ustr_of ''No Subject''"
definition UNKNOWN :: ustr where "UNKNOWN = ustr_of ''Unknown''"

text \<open>Lines 302 to 315: the entry of \<open>results\<close> for one fetched message.\<close>

definition summarize :: "world \<Rightarrow> bytes \<Rightarrow> error + email_message \<Rightarrow> error + summary" where
  "summarize w msg_id msg_data =
     and_then msg_data (\<lambda>msg.
     and_then (decode_email_header (py_codec w) (header_or NO_SUBJECT (hdr_subject msg))) (\<lambda>subject.
     and_then (decode_email_header (py_codec w) (header_or UNKNOWN (hdr_from msg))) (\<lambda>from_addr.
     and_then (decode_email_header (py_codec w) (header_or UNKNOWN (hdr_date msg))) (\<lambda>date.
     and_then (utf8_decode msg_id) (\<lambda>id.
     Inr (Summary id subject from_addr date))))))"

text \<open>
  The loop over \<open>message_ids\<close> (lines 297 to 315). A fetch whose status is not \<open>OK\<close> is
  skipped; an exception ends the loop and leaves it.
\<close>

fun fetch_loop ::
  "world \<Rightarrow> conn \<Rightarrow> bytes list \<Rightarrow> summary list \<Rightarrow> session \<Rightarrow> (error + summary list) \<times> session"
where
  "fetch_loop w c [] results s = (Inr results, s)"
| "fetch_loop w c (msg_id # message_ids) results s =
     (case imap_fetch w (history s) c msg_id of
        Inl e \<Rightarrow> (Inl e, send (EFetch c msg_id) s)
      | Inr (status, msg_data) \<Rightarrow>
          if status \<noteq> OK then fetch_loop w c message_ids results (send (EFetch c msg_id) s)
          else
            (case summarize w msg_id msg_data of
               Inl e \<Rightarrow> (Inl e, send (EFetch c msg_id) s)
             | Inr entry \<Rightarrow>
                 fetch_loop w c message_ids (results @ [entry]) (send (EFetch c msg_id) s)))"

text \<open>
  Lines 270 to 291: everything up to the list of message ids. \<open>Inl\<close> is an early
  \<open>return\<close> (or the \<open>except\<close> of the function).
\<close>

definition search_ids ::
  "world \<Rightarrow> ustr \<Rightarrow> ustr \<Rightarrow> session \<Rightarrow> (tool_result + conn \<times> bytes list) \<times> session"
where
  "search_ids w query folder s =
     (let (connected, s1) = connect_to_email w s in
      if \<not> connected then (Inl Failed_to_connect, s1)
      else
        (case current_connection s1 of
           None \<Rightarrow>
             (Inl (Error_searching AttributeError),
              ctx_log (Error_searching_emails AttributeError) s1)
         | Some c \<Rightarrow>
             (let s2 = send (ESelect c folder) s1 in
              case imap_select w (history s1) c folder of
                Inl e \<Rightarrow> (Inl (Error_searching e), ctx_log (Error_searching_emails e) s2)
              | Inr status \<Rightarrow>
                  if status \<noteq> OK then (Inl (Failed_to_select_folder folder), s2)
                  else
                    (let imap_query = imap_query_of w query;
                         s3 = send (ESearch c imap_query) s2
                     in case imap_search w (history s2) c imap_query of
                          Inl e \<Rightarrow>
                            (Inl (Error_searching e), ctx_log (Error_searching_emails e) s3)
                        | Inr (status, messages0) \<Rightarrow>
                            if status \<noteq> OK then (Inl (Search_failed status), s3)
                            else
                              (case messages0 of
                                 None \<Rightarrow>
                                   (Inl (Error_searching AttributeError),
                                    ctx_log (Error_searching_emails AttributeError) s3)
                               | Some data \<Rightarrow> (Inr (c, split_whitespace [] data), s3))))))"

definition search_emails ::
  "world \<Rightarrow> ustr \<Rightarrow> ustr \<Rightarrow> int \<Rightarrow> session \<Rightarrow> tool_result \<times> session"
where
  "search_emails w query folder limit s =
     (case search_ids w query folder s of
        (Inl early, s1) \<Rightarrow> (early, s1)
      | (Inr (c, message_ids), s1) \<Rightarrow>
          (case fetch_loop w c (limit_ids limit message_ids) [] s1 of
             (Inl e, s2) \<Rightarrow> (Error_searching e, ctx_log (Error_searching_emails e) s2)
           | (Inr results, s2) \<Rightarrow>
               (if results = [] then No_emails_found query
                else Results results (length results) folder, s2)))"

text \<open>
  Two observations on a run, for stating what \<open>search_emails\<close> does: the queries that
  the server received with the search verb, and whether the tool returned before it
  could have received a reply to one.
\<close>

fun searches :: "event list \<Rightarrow> ustr list" where
  "searches [] = []"
| "searches (ESearch c q # evs) = q # searches evs"
| "searches (ev # evs) = searches evs"

fun is_early :: "tool_result \<Rightarrow> bool" where
  "is_early Failed_to_connect = True"
| "is_early (Failed_to_select_folder folder) = True"
| "is_early (Error_searching e) = True"
| "is_early r = False"

text \<open>
  What working through a list of ids comes to, stated apart from the loop. The entry of
  a message gives its id and its Subject, From and Date headers, decoded, with
  \<open>No Subject\<close> and \<open>Unknown\<close> for a header that is missing; making it raises what the
  decoding of a header or of the id raises. The outcome for one id is the exception
  raised by its fetch or by the making of its entry, nothing when the fetch does not
  answer \<open>OK\<close>, and its entry otherwise. When the turn of an id comes, the server has
  received the fetches of all the ids before it.
\<close>

definition entry_for :: "world \<Rightarrow> bytes \<Rightarrow> email_message \<Rightarrow> error + summary" where
  "entry_for w msg_id msg =
     (case decode_email_header (py_codec w) (header_or NO_SUBJECT (hdr_subject msg)) of
        Inl e \<Rightarrow> Inl e
      | Inr subject \<Rightarrow>
          (case decode_email_header (py_codec w) (header_or UNKNOWN (hdr_from msg)) of
             Inl e \<Rightarrow> Inl e
           | Inr from_addr \<Rightarrow>
               (case decode_email_header (py_codec w) (header_or UNKNOWN (hdr_date msg)) of
                  Inl e \<Rightarrow> Inl e
                | Inr date \<Rightarrow>
                    (case utf8_decode msg_id of
                       Inl e \<Rightarrow> Inl e
                     | Inr entry_id \<Rightarrow> Inr (Summary entry_id subject from_addr date)))))"

definition process_one :: "world \<Rightarrow> conn \<Rightarrow> event list \<Rightarrow> bytes \<Rightarrow> error + summary option" where
  "process_one w c h msg_id =
     (case imap_fetch w h c msg_id of
        Inl e \<Rightarrow> Inl e
      | Inr (status, msg_data) \<Rightarrow>
          if status = OK then
            (case msg_data of
               Inl e \<Rightarrow> Inl e
             | Inr msg \<Rightarrow>
                 (case entry_for w msg_id msg of Inl e \<Rightarrow> Inl e | Inr entry \<Rightarrow> Inr (Some entry)))
          else Inr None)"

fun outcomes :: "world \<Rightarrow> conn \<Rightarrow> event list \<Rightarrow> bytes list \<Rightarrow> (error + summary option) list" where
  "outcomes w c h [] = []"
| "outcomes w c h (msg_id # message_ids) =
     process_one w c h msg_id # outcomes w c (h @ [EFetch c msg_id]) message_ids"

text \<open>The first exception among the outcomes, if there is one.\<close>

fun first_error :: "(error + summary option) list \<Rightarrow> error option" where
  "first_error [] = None"
| "first_error (Inl e # outs) = Some e"
| "first_error (Inr entry # outs) = first_error outs"

text \<open>
  The ids that get their turn: those up to and including the first one whose outcome
  is an exception, and all of them when there is none.
\<close>

fun processed :: "bytes list \<Rightarrow> (error + summary option) list \<Rightarrow> bytes list" where
  "processed (msg_id # message_ids) (Inr entry # outs) = msg_id # processed message_ids outs"
| "processed (msg_id # message_ids) (Inl e # outs) = [msg_id]"
| "processed message_ids outs = []"

fun entries_of :: "error + summary option \<Rightarrow> summary list" where
  "entries_of (Inr (Some entry)) = [entry]"
| "entries_of outcome = []"

fun is_entry :: "error + summary option \<Rightarrow> bool" where
  "is_entry (Inr (Some entry)) = True"
| "is_entry outcome = False"

text \<open>
  What the tool returns for given outcomes: the error message of the first exception;
  without one, the entries in the order of the ids, or the message that no email was
  found when there is no entry.
\<close>

definition search_result :: "ustr \<Rightarrow> ustr \<Rightarrow> (error + summary option) list \<Rightarrow> tool_result" where
  "search_result query folder outs =
     (case first_error outs of
        Some e \<Rightarrow> Error_searching e
      | None \<Rightarrow>
          (let results = concat (map entries_of outs)
           in if results = [] then No_emails_found query
              else Results results (length results) folder))"

subsection \<open>\<open>read_email\<close>\<close>

text \<open>Line 365: \<open>body[:2000] + ("..." if len(body) > 2000 else "")\<close>.\<close>

definition truncate_body :: "ustr \<Rightarrow> ustr" where
  "truncate_body body = take 2000 body @ (if 2000 < length body then ustr_of ''...'' else [])"

text \<open>Lines 349 to 366: the dictionary \<open>email_data\<close> for the fetched message.\<close>

definition render_email :: "world \<Rightarrow> ustr \<Rightarrow> error + email_message \<Rightarrow> error + email_data" where
  "render_email w email_id msg_data =
     and_then msg_data (\<lambda>msg.
     and_then (decode_email_header (py_codec w) (header_or NO_SUBJECT (hdr_subject msg))) (\<lambda>subject.
     and_then (decode_email_header (py_codec w) (header_or UNKNOWN (hdr_from msg))) (\<lambda>from_addr.
     and_then (decode_email_header (py_codec w) (header_or UNKNOWN (hdr_to msg))) (\<lambda>to_addr.
     and_then (decode_email_header (py_codec w) (header_or UNKNOWN (hdr_date msg))) (\<lambda>date.
     and_then (get_email_body (mime msg)) (\<lambda>body.
     Inr \<lparr>ed_id = email_id, ed_subject = subject, ed_from = from_addr, ed_to = to_addr,
          ed_date = date, ed_body = truncate_body body\<rparr>))))))"

definition read_email :: "world \<Rightarrow> ustr \<Rightarrow> ustr \<Rightarrow> session \<Rightarrow> tool_result \<times> session" where
  "read_email w email_id folder s =
     (let (connected, s1) = connect_to_email w s in
      if \<not> connected then (Failed_to_connect, s1)
      else
        (case current_connection s1 of
           None \<Rightarrow> (Error_reading AttributeError, ctx_log (Error_reading_email AttributeError) s1)
         | Some c \<Rightarrow>
             (let s2 = send (ESelect c folder) s1 in
              case imap_select w (history s1) c folder of
                Inl e \<Rightarrow> (Error_reading e, ctx_log (Error_reading_email e) s2)
              | Inr status \<Rightarrow>
                  if status \<noteq> OK then (Failed_to_select_folder folder, s2)
                  else
                    (case utf8_encode email_id of
                       Inl e \<Rightarrow> (Error_reading e, ctx_log (Error_reading_email e) s2)
                     | Inr msg_id \<Rightarrow>
                         (let s3 = send (EFetch c msg_id) s2 in
                          case imap_fetch w (history s2) c msg_id of
                            Inl e \<Rightarrow> (Error_reading e, ctx_log (Error_reading_email e) s3)
                          | Inr (status, msg_data) \<Rightarrow>
                              if status \<noteq> OK then (Failed_to_fetch_email email_id, s3)
                              else
                                (case render_email w email_id msg_data of
                                   Inl e \<Rightarrow> (Error_reading e, ctx_log (Error_reading_email e) s3)
                                 | Inr email_data \<Rightarrow> (Email email_data, s3)))))))"

section \<open>Example inputs\<close>

text \<open>
  A message with a PDF attachment and an inline image and no text part; a message with
  a plain-text and an HTML alternative next to an attached text file; a message with
  a plain-text body and an attached text file whose disposition is written
  \<open>Attachment\<close>, with a capital letter; and a message with a plain-text body and a
  forwarded message attached as \<open>message/rfc822\<close>.
\<close>

definition example_no_text :: message where
  "example_no_text =
     Multipart (ustr_of ''multipart/mixed'') None
       [Part (ustr_of ''application/pdf'') (Some (ustr_of ''attachment; filename=a.pdf''))
          (Inr (Some [37, 80, 68, 70])),
        Part (ustr_of ''image/png'') None (Inr (Some [80, 78, 71]))]"

definition example_alternative :: message where
  "example_alternative =
     Multipart (ustr_of ''multipart/mixed'') None
       [Multipart (ustr_of ''multipart/alternative'') None
          [Part (ustr_of ''text/plain'') None (Inr (Some (ustr_of ''hi''))),
           Part (ustr_of ''text/html'') None (Inr (Some (ustr_of ''<p>hi</p>'')))],
        Part (ustr_of ''text/plain'') (Some (ustr_of ''attachment; filename=n.txt''))
          (Inr (Some (ustr_of ''notes'')))]"

definition example_capital_attachment :: message where
  "example_capital_attachment =
     Multipart (ustr_of ''multipart/mixed'') None
       [Part (ustr_of ''text/plain'') None (Inr (Some (ustr_of ''hello''))),
        Part (ustr_of ''text/plain'') (Some (ustr_of ''Attachment; filename=notes.txt''))
          (Inr (Some (ustr_of ''notes'')))]"

definition example_attached_message :: message where
  "example_attached_message =
     Multipart (ustr_of ''multipart/mixed'') None
       [Part (ustr_of ''text/plain'') None (Inr (Some (ustr_of ''outer''))),
        Multipart (ustr_of ''message/rfc822'') (Some (ustr_of ''attachment; filename=fwd.eml''))
          [Part (ustr_of ''text/plain'') None (Inr (Some (ustr_of ''inner'')))]]"

text \<open>
  A healthy session on connection 1 with no credentials in the environment (so that no
  login can succeed), and a server that answers every search with seven message ids and
  every fetch with a short message (for the id 9, with one whose body has 2500
  characters).
\<close>

definition example_message :: email_message where
  "example_message =
     \<lparr>hdr_subject = Some (Inr [(HStr (ustr_of ''Hello''), None)]),
      hdr_from = Some (Inr [(HStr (ustr_of ''a@example.com''), None)]),
      hdr_to = None,
      hdr_date = None,
      mime = Part (ustr_of ''text/plain'') None (Inr (Some (ustr_of ''hi'')))\<rparr>"

definition example_long_message :: email_message where
  "example_long_message =
     example_message\<lparr>mime := Part (ustr_of ''text/plain'') None (Inr (Some (replicate 2500 97)))\<rparr>"

definition example_world :: world where
  "example_world =
     \<lparr>env_YAHOO_EMAIL = None,
      env_YAHOO_PASSWORD = None,
      imap_open = (\<lambda>h host port. Inl IMAPError),
      imap_login = (\<lambda>h c user pass. Inl IMAPError),
      imap_noop = (\<lambda>h c. Inr OK),
      imap_list = (\<lambda>h c. Inr (OK, [])),
      imap_select = (\<lambda>h c folder. Inr OK),
      imap_search = (\<lambda>h c query. Inr (OK, Some (ustr_of ''1 2 3 4 5 6 7''))),
      imap_fetch = (\<lambda>h c msg_id.
         Inr (OK, Inr (if msg_id = ustr_of ''9'' then example_long_message else example_message))),
      py_codec = (\<lambda>charset octets. Inl LookupError),
      unicode_upper = (\<lambda>c. [c])\<rparr>"

definition example_session :: session where
  "example_session =
     \<lparr>email_config =
        Some \<lparr>username = ustr_of ''me'', password = ustr_of ''secret'',
              imap_server = DEFAULT_SERVER, imap_port = DEFAULT_PORT, connection = Some 1\<rparr>,
      history = [],
      log = []\<rparr>"

definition INBOX :: ustr where "INBOX = ustr_of ''INBOX''"

text \<open>
  Two lines of a \<open>LIST\<close> response: one with the folder name in quotes, one with the name
  as an atom, as many servers send it.
\<close>

definition example_line_quoted :: bytes where
  "example_line_quoted = ustr_of ''(HasNoChildren) '' @ [34, 47, 34, 32, 34] @ ustr_of ''Sent'' @ [34]"

definition example_line_atom :: bytes where
  "example_line_atom = ustr_of ''(HasNoChildren) '' @ [34, 47, 34, 32] @ ustr_of ''INBOX''"

text \<open>The same server with a search that matches nothing.\<close>

definition example_empty_world :: world where
  "example_empty_world = example_world\<lparr>imap_search := (\<lambda>h c query. Inr (OK, Some []))\<rparr>"

text \<open>
  The same server when the connection breaks at the fetch of the message 6, and when it
  answers every fetch with \<open>NO\<close>.
\<close>

definition example_breaking_world :: world where
  "example_breaking_world =
     example_world\<lparr>imap_fetch := (\<lambda>h c msg_id.
        if msg_id = ustr_of ''6'' then Inl IMAPError else Inr (OK, Inr example_message))\<rparr>"

definition example_refusing_world :: world where
  "example_refusing_world =
     example_world\<lparr>imap_fetch := (\<lambda>h c msg_id. Inr (ustr_of ''NO'', Inr example_message))\<rparr>"

section \<open>The modified UTF-7 decoder: where it returns and where it raises\<close>

lemma a2b_loop_error: "a2b_loop cs q l p out = Inl e \<Longrightarrow> e = BinasciiError"
  by (induction cs q l p out rule: a2b_loop.induct) (auto split: if_splits option.splits)

lemma utf16be_decode_error: "utf16be_decode bs = Inl e \<Longrightarrow> e = UnicodeDecodeError"
  by (induction bs rule: utf16be_decode.induct)
     (auto simp: Let_def split: if_splits sum.splits list.splits)

lemma decode_payload_ascii:
  assumes "\<forall>c \<in> set raw. c < 128"
  shows "\<exists>t. decode_payload raw = Inr t"
proof -
  define encoded where "encoded = py_replace raw COMMA SLASH"
  define padded where
    "padded = (if 0 < length encoded mod 4
               then encoded @ replicate (4 - length encoded mod 4) EQUALS else encoded)"
  have "\<forall>c \<in> set padded. c < 128"
    using assms by (auto simp: padded_def encoded_def py_replace_def SLASH_def EQUALS_def)
  then have b: "b64decode padded = a2b_base64 padded"
    by (auto simp: b64decode_def list_ex_iff)
  have dp: "decode_payload raw =
     (case (case a2b_base64 padded of Inl e \<Rightarrow> Inl e | Inr bs \<Rightarrow> utf16be_decode bs) of
           Inr decoded_text \<Rightarrow> Inr decoded_text
         | Inl UnicodeDecodeError \<Rightarrow> Inr ([AMP] @ raw @ [DASH])
         | Inl BinasciiError \<Rightarrow> Inr ([AMP] @ raw @ [DASH])
         | Inl e \<Rightarrow> Inl e)"
    unfolding decode_payload_def Let_def padded_def encoded_def
      b[unfolded padded_def encoded_def] ..
  show ?thesis
  proof (cases "a2b_base64 padded")
    case (Inl e)
    then have "e = BinasciiError" by (auto simp: a2b_base64_def dest: a2b_loop_error)
    with Inl show ?thesis by (simp add: dp)
  next
    case (Inr bs)
    show ?thesis
    proof (cases "utf16be_decode bs")
      case (Inl e)
      then have "e = UnicodeDecodeError" by (rule utf16be_decode_error)
      with Inl Inr show ?thesis by (simp add: dp)
    next
      case (Inr t)
      with \<open>a2b_base64 padded = Inr bs\<close> show ?thesis by (simp add: dp)
    qed
  qed
qed

lemma decode_loop_ascii:
  "\<forall>c \<in> set s. c < 128 \<Longrightarrow> \<exists>t. decode_loop s i result = Inr t"
proof (induction s i result rule: decode_loop.induct)
  case (1 s i result)
  show ?case
  proof (cases "i < length s")
    case False
    then show ?thesis by (subst decode_loop.simps) simp
  next
    case True
    show ?thesis
    proof (cases "s ! i = AMP \<and> i + 1 < length s")
      case False
      with True 1 show ?thesis by (subst decode_loop.simps) auto
    next
      case amp: True
      show ?thesis
      proof (cases "py_find s DASH (i + 1)")
        case None
        with True amp 1 show ?thesis by (subst decode_loop.simps) auto
      next
        case (Some j)
        show ?thesis
        proof (cases "j = i + 1")
          case True
          with \<open>i < length s\<close> amp Some 1 show ?thesis by (subst decode_loop.simps) auto
        next
          case False
          have "\<forall>c \<in> set (py_slice s (i + 1) j). c < 128"
            using 1(5) by (auto simp: py_slice_def dest!: in_set_takeD in_set_dropD)
          then obtain t where t: "decode_payload (py_slice s (i + 1) j) = Inr t"
            using decode_payload_ascii by blast
          from 1(3)[OF True amp Some False t 1(5)]
          obtain r where "decode_loop s (j + 1) (result @ t) = Inr r" by blast
          with True amp Some False t show ?thesis
            by (subst decode_loop.simps) simp
        qed
      qed
    qed
  qed
qed

text \<open>
  On a string of ASCII characters the decoder returns: every failure of the payload
  decoding is then a \<open>binascii.Error\<close> or a \<open>UnicodeDecodeError\<close>, which the handler
  catches.
\<close>

lemma decode_modified_utf7_ascii_total:
  "\<forall>c \<in> set s. c < 128 \<Longrightarrow> \<exists>t. decode_modified_utf7 s = Inr t"
  by (simp add: decode_modified_utf7_def decode_loop_ascii)

text \<open>
  The decoder on the examples of the specification: text without an ampersand is
  returned as it is, \<open>&-\<close> is an ampersand, and the escape \<open>&U,BTFw-\<close> is the two
  characters \<open>U+53F0 U+5317\<close>.
\<close>

lemma decode_payload_fixture: "decode_payload (ustr_of ''U,BTFw'') = Inr [0x53F0, 0x5317]"
  by (simp add: decode_payload_def py_replace_def b64decode_def a2b_base64_def b64_value_def
      ustr_of_def COMMA_def SLASH_def EQUALS_def numeral_2_eq_2)

lemma decode_modified_utf7_fixture:
  "decode_modified_utf7 (ustr_of ''&U,BTFw-'') = Inr [0x53F0, 0x5317]"
proof -
  have s: "py_slice (ustr_of ''&U,BTFw-'') (Suc 0) 7 = ustr_of ''U,BTFw''"
    by (simp add: py_slice_def ustr_of_def)
  have f: "py_find (ustr_of ''&U,BTFw-'') DASH (Suc 0) = Some 7"
    by (simp add: py_find_def ustr_of_def DASH_def)
  have a: "ustr_of ''&U,BTFw-'' ! 0 = AMP" "length (ustr_of ''&U,BTFw-'') = 8"
    by (simp_all add: ustr_of_def AMP_def)
  have "decode_loop (ustr_of ''&U,BTFw-'') 0 [] = decode_loop (ustr_of ''&U,BTFw-'') 8 [0x53F0, 0x5317]"
    by (subst decode_loop.simps) (simp add: a f s decode_payload_fixture)
  also have "\<dots> = Inr [0x53F0, 0x5317]"
    by (subst decode_loop.simps) (simp add: a)
  finally show ?thesis by (simp add: decode_modified_utf7_def ustr_of_def)
qed

lemma decode_loop_no_amp:
  "AMP \<notin> set s \<Longrightarrow> decode_loop s i result = Inr (result @ drop i s)"
proof (induction s i result rule: decode_loop.induct)
  case (1 s i result)
  show ?case
  proof (cases "i < length s")
    case False
    then show ?thesis by (subst decode_loop.simps) simp
  next
    case True
    then have n: "s ! i \<noteq> AMP" using 1(5) nth_mem[of i s] by metis
    have "decode_loop s i result = decode_loop s (i + 1) (result @ [s ! i])"
      using True n by (subst decode_loop.simps) simp
    also have "\<dots> = Inr ((result @ [s ! i]) @ drop (i + 1) s)"
      using 1(4)[OF True _ 1(5)] n by simp
    also have "(result @ [s ! i]) @ drop (i + 1) s = result @ drop i s"
      using True by (simp add: Cons_nth_drop_Suc)
    finally show ?thesis .
  qed
qed

lemma decode_modified_utf7_no_amp: "AMP \<notin> set s \<Longrightarrow> decode_modified_utf7 s = Inr s"
  by (simp add: decode_modified_utf7_def decode_loop_no_amp)

lemma decode_modified_utf7_literal_amp:
  "decode_modified_utf7 (ustr_of ''a&-b'') = Inr (ustr_of ''a&b'')"
  by code_simp

text \<open>
  Claim C1 says that \<open>decode_modified_utf7\<close> is total: it returns a string for every
  input string and never raises, also on a malformed escape or a payload that cannot be
  decoded. The code does not do that on the three-character string \<open>&\<close>, \<open>U+00E9\<close>,
  \<open>-\<close>: the payload is not ASCII, \<open>base64.b64decode\<close> raises a plain \<open>ValueError\<close>, and
  the handler on line 189 catches \<open>UnicodeDecodeError\<close> and \<open>binascii.Error\<close> only.
\<close>

theorem decode_modified_utf7_raises_ValueError:
  "decode_modified_utf7 [AMP, 233, DASH] = Inl ValueError"
  by code_simp

section \<open>The body extractor: which text is returned\<close>

lemma utf8_replace_nonempty: "body \<noteq> [] \<Longrightarrow> utf8_replace body \<noteq> []"
  by (cases body) simp_all

lemma plain_not_html: "TEXT_PLAIN \<noteq> TEXT_HTML"
  by (simp add: TEXT_PLAIN_def TEXT_HTML_def ustr_of_def)

lemma taken_for_nonempty: "taken_for ct part \<Longrightarrow> decoded_payload part \<noteq> []"
  by (auto simp: taken_for_def decoded_payload_def utf8_replace_nonempty
           split: sum.splits option.splits)

lemma body_step_cases:
  "body_step acc part =
     (if taken_for TEXT_PLAIN part then (decoded_payload part, snd acc)
      else if taken_for TEXT_HTML part then (fst acc, decoded_payload part)
      else acc)"
  using plain_not_html
  by (auto simp: body_step_def taken_for_def decoded_payload_def Let_def
           split: sum.splits option.splits)

lemma taken_texts_snoc:
  "taken_texts ct (parts @ [part]) =
     (if taken_for ct part then taken_texts ct parts @ [decoded_payload part] else taken_texts ct parts)"
  by (simp add: taken_texts_def)

lemma foldl_body_step:
  "foldl body_step acc parts =
     (if taken_texts TEXT_PLAIN parts \<noteq> [] then last (taken_texts TEXT_PLAIN parts) else fst acc,
      if taken_texts TEXT_HTML parts \<noteq> [] then last (taken_texts TEXT_HTML parts) else snd acc)"
proof (induction parts rule: rev_induct)
  case Nil
  show ?case by (simp add: taken_texts_def)
next
  case (snoc part parts)
  have excl: "\<not> (taken_for TEXT_PLAIN part \<and> taken_for TEXT_HTML part)"
    using plain_not_html by (auto simp: taken_for_def)
  have "foldl body_step acc (parts @ [part]) = body_step (foldl body_step acc parts) part"
    by simp
  also have "\<dots> = body_step
      (if taken_texts TEXT_PLAIN parts \<noteq> [] then last (taken_texts TEXT_PLAIN parts) else fst acc,
       if taken_texts TEXT_HTML parts \<noteq> [] then last (taken_texts TEXT_HTML parts) else snd acc) part"
    by (simp only: snoc.IH)
  also have "\<dots> =
     (if taken_texts TEXT_PLAIN (parts @ [part]) \<noteq> [] then last (taken_texts TEXT_PLAIN (parts @ [part]))
      else fst acc,
      if taken_texts TEXT_HTML (parts @ [part]) \<noteq> [] then last (taken_texts TEXT_HTML (parts @ [part]))
      else snd acc)"
    using excl by (subst body_step_cases) (auto simp: taken_texts_snoc)
  finally show ?case .
qed

lemma taken_texts_nonempty: "t \<in> set (taken_texts ct parts) \<Longrightarrow> t \<noteq> []"
  by (auto simp: taken_texts_def taken_for_nonempty)

text \<open>
  The text that the multipart branch returns, for every message tree: the decoded
  payload of the last part that the loop takes for text/plain, else of the last part
  that it takes for text/html, else the empty string.
\<close>

lemma get_email_body_selection:
  assumes "is_multipart msg"
  shows "get_email_body msg =
     Inr (if taken_texts TEXT_PLAIN (walk msg) \<noteq> [] then last (taken_texts TEXT_PLAIN (walk msg))
          else if taken_texts TEXT_HTML (walk msg) \<noteq> [] then last (taken_texts TEXT_HTML (walk msg))
          else [])"
proof -
  have ne: "taken_texts TEXT_PLAIN (walk msg) \<noteq> [] \<Longrightarrow> last (taken_texts TEXT_PLAIN (walk msg)) \<noteq> []"
    using taken_texts_nonempty[of "last (taken_texts TEXT_PLAIN (walk msg))" TEXT_PLAIN "walk msg"]
    by simp
  show ?thesis
    using assms ne by (simp add: get_email_body_def foldl_body_step)
qed

text \<open>
  A message with a plain-text and an HTML alternative yields the plain text; the text
  file next to them, whose disposition is \<open>attachment\<close> in lower case, is skipped.
\<close>

lemma get_email_body_alternative:
  "get_email_body example_alternative = Inr (ustr_of ''hi'')"
  by code_simp

text \<open>
  Both accumulators end empty exactly when the loop takes no part for either content
  type.
\<close>

lemma accumulators_empty:
  "foldl body_step ([], []) parts = ([], []) \<longleftrightarrow>
     filter (taken_for TEXT_PLAIN) parts = [] \<and> filter (taken_for TEXT_HTML) parts = []"
proof -
  have ne: "taken_texts ct parts \<noteq> [] \<Longrightarrow> last (taken_texts ct parts) \<noteq> []" for ct
    using taken_texts_nonempty[of "last (taken_texts ct parts)" ct parts] by simp
  have "foldl body_step ([], []) parts = ([], []) \<longleftrightarrow>
          taken_texts TEXT_PLAIN parts = [] \<and> taken_texts TEXT_HTML parts = []"
    using ne[of TEXT_PLAIN] ne[of TEXT_HTML] by (auto simp: foldl_body_step)
  then show ?thesis by (simp add: taken_texts_def)
qed

text \<open>
  Claim C2 says that for a multipart message in which no part other than an attachment
  yields text/plain or text/html content, so that both accumulators end empty,
  \<open>get_email_body\<close> returns the sentinel \<open>Could not decode email body\<close> rather than
  raising. The sentinel is produced on line 146, in the branch for a message that is not
  multipart; the multipart branch ends on line 140 and returns \<open>html_content\<close>, which is
  then the empty string. As amended: for a multipart message for which both accumulators
  end empty, \<open>get_email_body\<close> returns the empty string, and does not raise.
\<close>

theorem get_email_body_no_text_empty:
  assumes "is_multipart msg"
    and "foldl body_step ([], []) (walk msg) = ([], [])"
  shows "get_email_body msg = Inr []"
  using assms by (simp add: get_email_body_def)

theorem get_email_body_no_text_empty_witness:
  "is_multipart example_no_text \<and>
   foldl body_step ([], []) (walk example_no_text) = ([], []) \<and>
   get_email_body example_no_text = Inr []"
proof -
  have a: "is_multipart example_no_text" by code_simp
  have b: "foldl body_step ([], []) (walk example_no_text) = ([], [])" by code_simp
  show ?thesis using a b get_email_body_no_text_empty[OF a b] by simp
qed

theorem get_email_body_no_text_counterexample:
  "is_multipart example_no_text \<and>
   foldl body_step ([], []) (walk example_no_text) = ([], []) \<and>
   get_email_body example_no_text \<noteq> Inr COULD_NOT_DECODE"
  by code_simp

text \<open>
  Claim C6 says that for every multipart message \<open>get_email_body\<close> skips every part
  whose content disposition indicates an attachment, and among the remaining parts
  returns the last decoded text/plain payload when one is non-empty, otherwise the last
  decoded text/html payload. The code means to do so (\<open># Skip attachments\<close>, line 123),
  and its test on line 124 is whether the text of the header contains \<open>attachment\<close> in
  lower case. A disposition type is matched without regard to case, and a mail client
  may write \<open>Content-Disposition: Attachment; filename=notes.txt\<close>: the part is an
  attachment, the test does not skip it, and for a message with the plain-text body
  \<open>hello\<close> and that attached text file the extractor returns the text of the file.
\<close>

theorem get_email_body_capital_attachment:
  "map content_disposition (walk example_capital_attachment) =
     [ustr_of ''None'', ustr_of ''None'', ustr_of ''Attachment; filename=notes.txt''] \<and>
   get_email_body example_capital_attachment = Inr (ustr_of ''notes'')"
  by code_simp

text \<open>
  The test looks at the header of the part itself. The parts of a forwarded message
  that is attached as a whole carry no such header, and are read like the parts of the
  message itself.
\<close>

lemma get_email_body_attached_message:
  "get_email_body example_attached_message = Inr (ustr_of ''inner'')"
  by code_simp

section \<open>The header decoder\<close>

lemma header_fold:
  "foldl (\<lambda>header_text seg. header_text @ f seg) acc segments = acc @ concat (map f segments)"
  by (induction segments arbitrary: acc) simp_all

text \<open>
  Once \<open>decode_header\<close> has returned its segments, the loop cannot raise, and the result
  is the texts of the segments in order: a \<open>bytes\<close> segment decoded with its charset,
  or as UTF-8 with replacement characters when it has none or the charset fails.
\<close>

lemma decode_email_header_segments:
  "decode_email_header codec (Inr segments) =
     Inr (concat (map (decode_segment codec) segments))"
  by (simp add: decode_email_header_def header_fold)

text \<open>
  Claim C8 says that \<open>decode_email_header\<close> decodes each segment with its charset, falls
  back to UTF-8 with replacement characters, concatenates in order, and never raises.
  The loop does all that, but \<open>decode_header\<close> on line 95 is called outside the \<open>try\<close>:
  on a header such as \<open>=?utf-8?b?a?=\<close>, whose Base64 payload cannot be decoded, it
  raises \<open>HeaderParseError\<close>, and so does \<open>decode_email_header\<close>.
\<close>

theorem decode_email_header_raises_HeaderParseError:
  "decode_email_header codec (decode_header_b_word (ustr_of ''utf-8'') (ustr_of ''a'')) =
     Inl HeaderParseError"
  by (simp add: decode_email_header_def decode_header_b_word_def decode_b_word_def
      a2b_base64_def b64_value_def ustr_of_def EQUALS_def)

section \<open>The connection manager: a healthy session\<close>

lemma send_simps [simp]:
  "history (send ev s) = history s @ [ev]"
  "email_config (send ev s) = email_config s"
  "log (send ev s) = log s"
  by (simp_all add: send_def)

lemma ctx_log_simps [simp]:
  "history (ctx_log entry s) = history s"
  "email_config (ctx_log entry s) = email_config s"
  "log (ctx_log entry s) = log s @ [entry]"
  by (simp_all add: ctx_log_def)

lemma current_connection_send [simp]: "current_connection (send ev s) = current_connection s"
  by (simp add: current_connection_def)

text \<open>
  Claim C9: whenever a connection exists and its liveness probe (\<open>noop\<close>) succeeds,
  \<open>connect_to_email\<close> returns success at once, without a login and without changing the
  session: the only verb sent is the probe, and the configuration and the log are as
  before. Called twice in a row on a healthy session it sends one probe per call and
  logs in zero times.
\<close>

theorem connect_to_email_healthy:
  assumes "current_connection s = Some c"
    and "imap_noop w (history s) c = Inr OK"
  shows "connect_to_email w s = (True, s\<lparr>history := history s @ [ENoop c]\<rparr>) \<and>
         (imap_noop w (history s @ [ENoop c]) c = Inr OK \<longrightarrow>
          connect_to_email w (snd (connect_to_email w s)) =
            (True, s\<lparr>history := history s @ [ENoop c, ENoop c]\<rparr>))"
proof -
  have first: "connect_to_email w s = (True, send (ENoop c) s)"
    using assms by (simp add: connect_to_email_def probe_def)
  have second: "connect_to_email w (send (ENoop c) s) = (True, send (ENoop c) (send (ENoop c) s))"
    if "imap_noop w (history s @ [ENoop c]) c = Inr OK"
    using that assms(1) by (simp add: connect_to_email_def probe_def)
  show ?thesis using first second by (simp add: send_def)
qed

theorem connect_to_email_healthy_witness:
  "current_connection example_session = Some 1 \<and>
   imap_noop example_world (history example_session) 1 = Inr OK \<and>
   imap_noop example_world (history example_session @ [ENoop 1]) 1 = Inr OK \<and>
   connect_to_email example_world example_session =
     (True, example_session\<lparr>history := history example_session @ [ENoop 1]\<rparr>) \<and>
   connect_to_email example_world (snd (connect_to_email example_world example_session)) =
     (True, example_session\<lparr>history := history example_session @ [ENoop 1, ENoop 1]\<rparr>)"
proof -
  have a: "current_connection example_session = Some 1" by code_simp
  have b: "imap_noop example_world (history example_session) 1 = Inr OK" by code_simp
  have c: "imap_noop example_world (history example_session @ [ENoop 1]) 1 = Inr OK" by code_simp
  show ?thesis using a b c connect_to_email_healthy[OF a b] by blast
qed

section \<open>\<open>read_email\<close>: the body field\<close>

lemma truncate_body_cases:
  "truncate_body body = (if 2000 < length body then take 2000 body @ ustr_of ''...'' else body)"
  by (simp add: truncate_body_def)

lemma and_then_Inr: "and_then r f = Inr y \<Longrightarrow> \<exists>x. r = Inr x \<and> f x = Inr y"
  by (cases r) (simp_all add: and_then_def)

lemma render_email_body:
  assumes "render_email w email_id msg_data = Inr d"
  shows "\<exists>msg body. msg_data = Inr msg \<and> get_email_body (mime msg) = Inr body \<and>
           ed_body d = truncate_body body"
  using assms unfolding render_email_def
  by (auto dest!: and_then_Inr)

text \<open>
  Claim C7: in \<open>read_email\<close>, a decoded body of more than 2000 characters is returned
  as its first 2000 characters followed by the marker \<open>...\<close>, and a body of at most
  2000 characters is returned unchanged, with no marker. The body is the one
  \<open>get_email_body\<close> extracts from the message that the fetch returned.
\<close>

theorem read_email_body_truncated:
  assumes "read_email w email_id folder s = (Email d, s')"
  shows "\<exists>h c msg_id msg body.
           imap_fetch w h c msg_id = Inr (OK, Inr msg) \<and>
           get_email_body (mime msg) = Inr body \<and>
           ed_body d = (if 2000 < length body then take 2000 body @ ustr_of ''...'' else body)"
proof -
  from assms obtain h c msg_id msg_data where
    f: "imap_fetch w h c msg_id = Inr (OK, msg_data)" and r: "render_email w email_id msg_data = Inr d"
    by (auto simp: read_email_def Let_def split: prod.splits if_splits option.splits sum.splits)
  from render_email_body[OF r] obtain msg body where
    m: "msg_data = Inr msg" and g: "get_email_body (mime msg) = Inr body"
    and e: "ed_body d = truncate_body body"
    by blast
  have "imap_fetch w h c msg_id = Inr (OK, Inr msg)" using f m by simp
  then show ?thesis using g e unfolding truncate_body_cases by blast
qed


lemma utf8_replace_ascii: "\<forall>c \<in> set bs. c < 128 \<Longrightarrow> utf8_replace bs = bs"
  by (induction bs) (simp_all add: utf8_step_def)

theorem read_email_body_truncated_witness:
  "read_email example_world (ustr_of ''9'') INBOX example_session =
     (Email \<lparr>ed_id = ustr_of ''9'', ed_subject = ustr_of ''Hello'',
             ed_from = ustr_of ''a@example.com'', ed_to = UNKNOWN, ed_date = UNKNOWN,
             ed_body = replicate 2000 97 @ ustr_of ''...''\<rparr>,
      example_session\<lparr>history := [ENoop 1, ESelect 1 INBOX, EFetch 1 (ustr_of ''9'')]\<rparr>) \<and>
   (\<exists>h c msg_id msg body.
      imap_fetch example_world h c msg_id = Inr (OK, Inr msg) \<and>
      get_email_body (mime msg) = Inr body \<and>
      replicate 2000 97 @ ustr_of ''...'' =
        (if 2000 < length body then take 2000 body @ ustr_of ''...'' else body))"
proof -
  have body: "get_email_body (mime example_long_message) = Inr (replicate 2500 97)"
    by (simp add: example_long_message_def get_email_body_def utf8_replace_ascii)
  have hdrs: "hdr_subject example_long_message = Some (Inr [(HStr (ustr_of ''Hello''), None)])"
    "hdr_from example_long_message = Some (Inr [(HStr (ustr_of ''a@example.com''), None)])"
    "hdr_to example_long_message = None" "hdr_date example_long_message = None"
    by (simp_all add: example_long_message_def example_message_def)
  have render: "render_email example_world (ustr_of ''9'') (Inr example_long_message) =
     Inr \<lparr>ed_id = ustr_of ''9'', ed_subject = ustr_of ''Hello'',
             ed_from = ustr_of ''a@example.com'', ed_to = UNKNOWN, ed_date = UNKNOWN,
             ed_body = replicate 2000 97 @ ustr_of ''...''\<rparr>"
    by (simp add: render_email_def and_then_def body hdrs header_or_def decode_email_header_def
        truncate_body_def)
  have enc: "utf8_encode (ustr_of ''9'') = Inr (ustr_of ''9'')"
    by (simp add: ustr_of_def utf8_encode_char_def)
  have a: "read_email example_world (ustr_of ''9'') INBOX example_session =
     (Email \<lparr>ed_id = ustr_of ''9'', ed_subject = ustr_of ''Hello'',
             ed_from = ustr_of ''a@example.com'', ed_to = UNKNOWN, ed_date = UNKNOWN,
             ed_body = replicate 2000 97 @ ustr_of ''...''\<rparr>,
      example_session\<lparr>history := [ENoop 1, ESelect 1 INBOX, EFetch 1 (ustr_of ''9'')]\<rparr>)"
    by (simp add: read_email_def connect_to_email_def probe_def current_connection_def
        example_world_def example_session_def enc render[unfolded example_world_def] send_def)
  show ?thesis using a read_email_body_truncated[OF a] by simp
qed

section \<open>\<open>list_folders\<close>: lines without a trailing quoted name\<close>

lemma split_space_quote_nonempty: "split_space_quote piece s \<noteq> []"
  by (induction piece s rule: split_space_quote.induct) simp_all

lemma split_space_quote_count:
  "2 \<le> length (split_space_quote piece s) \<longleftrightarrow> sublist [SPACE, DQUOTE] s"
proof (induction piece s rule: split_space_quote.induct)
  case (1 piece a b rest)
  show ?case
  proof (cases "a = SPACE \<and> b = DQUOTE")
    case True
    have "1 \<le> length (split_space_quote [] rest)"
      using split_space_quote_nonempty[of "[]" rest] by (cases "split_space_quote [] rest") simp_all
    with True show ?thesis by (simp add: sublist_Cons_right)
  next
    case False
    with 1(2) show ?thesis by (auto simp: sublist_Cons_right)
  qed
next
  case (2 piece a)
  show ?case by (simp add: sublist_Cons_right)
next
  case (3 piece)
  show ?case by simp
qed

lemma folder_fold:
  "fst (foldl folder_step acc folders) = fst acc @ concat (map folder_entry folders)"
  by (induction folders arbitrary: acc)
     (auto simp: folder_step_def folder_entry_def split: prod.splits option.splits)

lemma folder_names_entries: "folder_names folders = concat (map folder_entry folders)"
  by (simp add: folder_names_def folder_fold)

lemma parse_folder_unquoted:
  assumes "trailing_quoted (utf8_replace raw) = None"
  shows "parse_folder (FolderBytes raw) =
     (if sublist [SPACE, DQUOTE] (utf8_replace raw) then
        (case decode_modified_utf7
                (strip_quotes (last (split_space_quote [] (utf8_replace raw)))) of
           Inl e \<Rightarrow> (None, [Info_raw_folder (utf8_replace raw), Error_processing_folder e])
         | Inr name \<Rightarrow> (Some name, [Info_raw_folder (utf8_replace raw)]))
      else (None, [Info_raw_folder (utf8_replace raw), Error_could_not_parse (utf8_replace raw)]))"
  using assms by (simp add: parse_folder_def Let_def split_space_quote_count)

text \<open>
  Claim C3 says that in \<open>list_folders\<close> every response line from which no trailing
  quoted token can be extracted is skipped and is not parsed by any other means. The
  code has a fallback for such a line (lines 239 to 244): it splits the line at every
  space followed by a double quote and, when that gives at least two pieces, takes the
  last piece stripped of double quotes as the name. As amended: a line with no trailing
  quoted token and no space followed by a double quote is skipped, contributes no entry
  to the folder list and is logged as unparsable; a line with no trailing quoted token
  that contains a space followed by a double quote contributes the decoded last piece
  (nothing if decoding it raises).
\<close>

theorem list_folders_unquoted_line:
  assumes "trailing_quoted (utf8_replace raw) = None"
  shows "(\<not> sublist [SPACE, DQUOTE] (utf8_replace raw) \<longrightarrow>
            folder_names (before @ FolderBytes raw # after) = folder_names (before @ after) \<and>
            snd (parse_folder (FolderBytes raw)) =
              [Info_raw_folder (utf8_replace raw), Error_could_not_parse (utf8_replace raw)]) \<and>
         (sublist [SPACE, DQUOTE] (utf8_replace raw) \<longrightarrow>
            folder_names (before @ FolderBytes raw # after) =
              folder_names before @
              (case decode_modified_utf7
                      (strip_quotes (last (split_space_quote [] (utf8_replace raw)))) of
                 Inl e \<Rightarrow> []
               | Inr name \<Rightarrow> [name]) @
              folder_names after)"
  using parse_folder_unquoted[OF assms]
  by (auto simp: folder_names_entries folder_entry_def split: sum.splits)

text \<open>The folder list that \<open>list_folders\<close> returns is \<open>folder_names\<close> of the server's lines.\<close>

lemma list_folders_names:
  assumes "list_folders w s = (Folders names, s')"
  shows "\<exists>h c folders. imap_list w h c = Inr (OK, folders) \<and> names = folder_names folders"
proof -
  from assms obtain h c folders entries where
    "imap_list w h c = Inr (OK, folders)" "foldl folder_step ([], []) folders = (names, entries)"
    by (auto simp: list_folders_def Let_def
             split: prod.splits if_splits option.splits sum.splits)
  then show ?thesis by (auto simp: folder_names_def intro!: exI)
qed

theorem list_folders_unquoted_line_witness:
  "trailing_quoted (utf8_replace (ustr_of ''INBOX'')) = None \<and>
   folder_names [FolderBytes example_line_quoted, FolderBytes (ustr_of ''INBOX'')] =
     folder_names [FolderBytes example_line_quoted] \<and>
   folder_names [FolderBytes example_line_quoted] = [ustr_of ''Sent'']"
proof -
  have a: "trailing_quoted (utf8_replace (ustr_of ''INBOX'')) = None" by code_simp
  have n: "\<not> sublist [SPACE, DQUOTE] (utf8_replace (ustr_of ''INBOX''))" by code_simp
  have q: "folder_names [FolderBytes example_line_quoted] = [ustr_of ''Sent'']" by code_simp
  from list_folders_unquoted_line[OF a, of "[FolderBytes example_line_quoted]" "[]"] n
  have "folder_names [FolderBytes example_line_quoted, FolderBytes (ustr_of ''INBOX'')] =
     folder_names [FolderBytes example_line_quoted]"
    by simp
  with a q show ?thesis by blast
qed

theorem list_folders_unquoted_line_counterexample:
  "trailing_quoted (utf8_replace example_line_atom) = None \<and>
   folder_names [FolderBytes example_line_atom] = [[47, 34] @ ustr_of '' INBOX'']"
  by code_simp

section \<open>\<open>search_emails\<close>: which messages are fetched and returned\<close>

lemma limit_ids_tail:
  assumes "1 \<le> limit"
  shows "limit_ids limit ids = drop (length ids - min (nat limit) (length ids)) ids"
proof (cases "ids = []")
  case True
  then show ?thesis by (simp add: limit_ids_def py_slice_from_def)
next
  case False
  then have n: "0 < length ids" by simp
  have m: "nat (min limit (int (length ids))) = min (nat limit) (length ids)"
    using assms by (simp add: min_def)
  have neg: "- min limit (int (length ids)) < 0" using assms n by (simp add: min_def)
  have "nat (max 0 (int (length ids) + - min limit (int (length ids)))) =
        length ids - min (nat limit) (length ids)"
    using assms n by (auto simp: min_def max_def)
  with neg show ?thesis by (simp add: limit_ids_def py_slice_from_def)
qed

lemma limit_ids_zero: "limit_ids 0 ids = ids"
  by (simp add: limit_ids_def py_slice_from_def)

text \<open>
  The loop of lines 297 to 315 against the outcomes of the ids: it returns the first
  exception, or else the entries in the order of the ids, and it sends one fetch for
  every id that gets its turn.
\<close>

lemma summarize_entry_for:
  "summarize w msg_id msg_data =
     (case msg_data of Inl e \<Rightarrow> Inl e | Inr msg \<Rightarrow> entry_for w msg_id msg)"
  by (simp add: summarize_def entry_for_def and_then_def split: sum.splits)

lemma fetch_loop_outcomes:
  "fetch_loop w c ids results s =
     (case first_error (outcomes w c (history s) ids) of
        Some e \<Rightarrow> Inl e
      | None \<Rightarrow> Inr (results @ concat (map entries_of (outcomes w c (history s) ids))),
      s\<lparr>history := history s @ map (EFetch c) (processed ids (outcomes w c (history s) ids))\<rparr>)"
proof (induction ids arbitrary: results s)
  case Nil
  show ?case by simp
next
  case (Cons msg_id ids)
  show ?case
    by (simp add: Cons.IH process_one_def summarize_entry_for send_def
             split: sum.splits prod.splits option.splits)
qed

lemma processed_all:
  "first_error (outcomes w c h ids) = None \<Longrightarrow> processed ids (outcomes w c h ids) = ids"
proof (induction ids arbitrary: h)
  case Nil
  show ?case by simp
next
  case (Cons msg_id ids)
  then show ?case by (cases "process_one w c h msg_id") simp_all
qed

lemma length_outcomes: "length (outcomes w c h ids) = length ids"
  by (induction ids arbitrary: h) simp_all

lemma entries_all:
  "list_all is_entry outs \<Longrightarrow>
     first_error outs = None \<and> length (concat (map entries_of outs)) = length outs"
  by (induction outs rule: first_error.induct) (auto elim: is_entry.elims)

lemma search_emails_outcomes:
  assumes "search_ids w query folder s = (Inr (c, ids), s1)"
  shows "search_emails w query folder limit s =
     (search_result query folder (outcomes w c (history s1) (limit_ids limit ids)),
      (case first_error (outcomes w c (history s1) (limit_ids limit ids)) of
         Some e \<Rightarrow> ctx_log (Error_searching_emails e)
       | None \<Rightarrow> (\<lambda>s. s))
        (s1\<lparr>history := history s1 @
             map (EFetch c) (processed (limit_ids limit ids)
                               (outcomes w c (history s1) (limit_ids limit ids)))\<rparr>))"
  using assms
  by (simp add: search_emails_def fetch_loop_outcomes search_result_def Let_def
           split: option.splits)

lemma entries_ids:
  "list_all is_entry (outcomes w c h ids) \<Longrightarrow>
     map (\<lambda>entry. Inr (sm_id entry)) (concat (map entries_of (outcomes w c h ids))) =
     map utf8_decode ids"
proof (induction ids arbitrary: h)
  case Nil
  show ?case by simp
next
  case (Cons msg_id ids)
  from Cons.prems obtain entry where e: "process_one w c h msg_id = Inr (Some entry)"
    by (auto elim: is_entry.elims)
  then have "utf8_decode msg_id = Inr (sm_id entry)"
    by (auto simp: process_one_def entry_for_def split: sum.splits prod.splits if_splits)
  with Cons e show ?case by simp
qed

text \<open>
  Claim C4 says that for every search whose id list has \<open>n\<close> elements and every limit of
  at least 1, \<open>search_emails\<close> processes exactly the last \<open>min(limit, n)\<close> ids of that
  list, in their original order. It selects exactly those ids and works through them in
  that order, but it does not always reach the last: an exception raised by a fetch or
  by the making of an entry ends the loop in the handler of line 321, and the ids after
  it are never fetched. As amended: \<open>search_emails\<close> selects exactly the last
  \<open>min(limit, n)\<close> ids of the list, a tail slice and not the first ids, and fetches them
  one by one in their original order, up to and including the first id at which the
  fetch or the making of the entry raises; it then returns the error message of that
  exception. When nothing raises, every selected id is fetched, and the result lists, in
  the same order, the entry of each selected id whose fetch answered \<open>OK\<close>, or says that
  no email was found when there is none.
\<close>

theorem search_emails_tail_slice:
  assumes "1 \<le> limit"
    and "search_ids w query folder s = (Inr (c, ids), s1)"
  shows "let selected = drop (length ids - min (nat limit) (length ids)) ids;
             outs = outcomes w c (history s1) selected
         in length selected = min (nat limit) (length ids) \<and>
            history (snd (search_emails w query folder limit s)) =
              history s1 @ map (EFetch c) (processed selected outs) \<and>
            (first_error outs = None \<longrightarrow> processed selected outs = selected) \<and>
            fst (search_emails w query folder limit s) = search_result query folder outs"
  using limit_ids_tail[OF assms(1), of ids]
  by (simp add: search_emails_outcomes[OF assms(2)] Let_def processed_all
           split: option.splits)

theorem search_emails_tail_slice_witness:
  "(1::int) \<le> 3 \<and>
   fst (search_ids example_world (ustr_of ''hello'') INBOX example_session) =
     Inr (1, map ustr_of [''1'', ''2'', ''3'', ''4'', ''5'', ''6'', ''7'']) \<and>
   history (snd (search_emails example_world (ustr_of ''hello'') INBOX 3 example_session)) =
     history (snd (search_ids example_world (ustr_of ''hello'') INBOX example_session)) @
     map (EFetch 1) (map ustr_of [''5'', ''6'', ''7'']) \<and>
   fst (search_emails example_world (ustr_of ''hello'') INBOX 3 example_session) =
     Results
       (map (\<lambda>i. Summary (ustr_of i) (ustr_of ''Hello'') (ustr_of ''a@example.com'')
                    (ustr_of ''Unknown''))
          [''5'', ''6'', ''7''])
       3 INBOX"
proof -
  have a: "(1::int) \<le> 3" by simp
  have b: "fst (search_ids example_world (ustr_of ''hello'') INBOX example_session) =
     Inr (1, map ustr_of [''1'', ''2'', ''3'', ''4'', ''5'', ''6'', ''7''])"
    by code_simp
  then have b': "search_ids example_world (ustr_of ''hello'') INBOX example_session =
     (Inr (1, map ustr_of [''1'', ''2'', ''3'', ''4'', ''5'', ''6'', ''7'']),
      snd (search_ids example_world (ustr_of ''hello'') INBOX example_session))"
    by (simp add: prod_eq_iff)
  have sel: "drop (length (map ustr_of [''1'', ''2'', ''3'', ''4'', ''5'', ''6'', ''7'']) -
                  min (nat 3) (length (map ustr_of [''1'', ''2'', ''3'', ''4'', ''5'', ''6'', ''7''])))
               (map ustr_of [''1'', ''2'', ''3'', ''4'', ''5'', ''6'', ''7'']) =
             map ustr_of [''5'', ''6'', ''7'']"
    by code_simp
  have p: "processed (map ustr_of [''5'', ''6'', ''7''])
             (outcomes example_world 1
                (history (snd (search_ids example_world (ustr_of ''hello'') INBOX example_session)))
                (map ustr_of [''5'', ''6'', ''7''])) =
           map ustr_of [''5'', ''6'', ''7'']"
    by code_simp
  have r: "search_result (ustr_of ''hello'') INBOX
             (outcomes example_world 1
                (history (snd (search_ids example_world (ustr_of ''hello'') INBOX example_session)))
                (map ustr_of [''5'', ''6'', ''7''])) =
           Results
             (map (\<lambda>i. Summary (ustr_of i) (ustr_of ''Hello'') (ustr_of ''a@example.com'')
                          (ustr_of ''Unknown''))
                [''5'', ''6'', ''7''])
             3 INBOX"
    by code_simp
  from search_emails_tail_slice[OF a b']
  have "history (snd (search_emails example_world (ustr_of ''hello'') INBOX 3 example_session)) =
          history (snd (search_ids example_world (ustr_of ''hello'') INBOX example_session)) @
          map (EFetch 1) (processed (map ustr_of [''5'', ''6'', ''7''])
             (outcomes example_world 1
                (history (snd (search_ids example_world (ustr_of ''hello'') INBOX example_session)))
                (map ustr_of [''5'', ''6'', ''7'']))) \<and>
        fst (search_emails example_world (ustr_of ''hello'') INBOX 3 example_session) =
          search_result (ustr_of ''hello'') INBOX
             (outcomes example_world 1
                (history (snd (search_ids example_world (ustr_of ''hello'') INBOX example_session)))
                (map ustr_of [''5'', ''6'', ''7'']))"
    unfolding Let_def sel by blast
  then show ?thesis unfolding p r using a b by blast
qed

theorem search_emails_tail_slice_counterexample:
  "(1::int) \<le> 3 \<and>
   fst (search_ids example_breaking_world (ustr_of ''hello'') INBOX example_session) =
     Inr (1, map ustr_of [''1'', ''2'', ''3'', ''4'', ''5'', ''6'', ''7'']) \<and>
   history (snd (search_emails example_breaking_world (ustr_of ''hello'') INBOX 3 example_session)) =
     history (snd (search_ids example_breaking_world (ustr_of ''hello'') INBOX example_session)) @
     map (EFetch 1) (map ustr_of [''5'', ''6'']) \<and>
   fst (search_emails example_breaking_world (ustr_of ''hello'') INBOX 3 example_session) =
     Error_searching IMAPError"
  by code_simp

text \<open>
  Claim C10 says that with limit 0 and a search that matches \<open>n > 0\<close> ids the slice
  \<open>message_ids[-min(limit, n):]\<close> selects all \<open>n\<close> ids, so that the tool returns every
  matching message rather than none. The slice is \<open>message_ids[0:]\<close> and does select all
  \<open>n\<close> ids. What is returned depends on the fetches: a message whose fetch does not
  answer \<open>OK\<close> is left out on line 300, so that the tool may still return none, and an
  exception ends the call with an error message. As amended: with limit 0 and \<open>n > 0\<close>
  ids the slice selects all \<open>n\<close> ids; the tool fetches them in order, up to and including
  the first id at which the fetch or the making of the entry raises, and returns the
  error message of that exception, or else the entries of the ids whose fetch answered
  \<open>OK\<close>, or that no email was found when there is none. When every id yields an entry,
  the result lists all \<open>n\<close> matching messages, one entry per id, in the order of the ids.
\<close>

theorem search_emails_limit_zero:
  assumes "search_ids w query folder s = (Inr (c, ids), s1)"
    and "ids \<noteq> []"
  shows "let outs = outcomes w c (history s1) ids
         in limit_ids 0 ids = ids \<and>
            history (snd (search_emails w query folder 0 s)) =
              history s1 @ map (EFetch c) (processed ids outs) \<and>
            (first_error outs = None \<longrightarrow> processed ids outs = ids) \<and>
            fst (search_emails w query folder 0 s) = search_result query folder outs \<and>
            (list_all is_entry outs \<longrightarrow>
               fst (search_emails w query folder 0 s) =
                 Results (concat (map entries_of outs)) (length ids) folder \<and>
               map (\<lambda>entry. Inr (sm_id entry)) (concat (map entries_of outs)) =
                 map utf8_decode ids)"
proof -
  let ?outs = "outcomes w c (history s1) ids"
  have h: "history (snd (search_emails w query folder 0 s)) =
             history s1 @ map (EFetch c) (processed ids ?outs)"
    by (simp add: search_emails_outcomes[OF assms(1)] limit_ids_zero split: option.splits)
  have r: "fst (search_emails w query folder 0 s) = search_result query folder ?outs"
    by (simp add: search_emails_outcomes[OF assms(1)] limit_ids_zero)
  have e: "fst (search_emails w query folder 0 s) =
             Results (concat (map entries_of ?outs)) (length ids) folder \<and>
           map (\<lambda>entry. Inr (sm_id entry)) (concat (map entries_of ?outs)) = map utf8_decode ids"
    if all: "list_all is_entry ?outs"
  proof -
    from entries_all[OF all]
    have n: "first_error ?outs = None"
      and l: "length (concat (map entries_of ?outs)) = length ids"
      by (simp_all add: length_outcomes)
    from l assms(2) have "concat (map entries_of ?outs) \<noteq> []"
      by (metis length_0_conv)
    with n l r have "fst (search_emails w query folder 0 s) =
        Results (concat (map entries_of ?outs)) (length ids) folder"
      by (simp add: search_result_def Let_def)
    with entries_ids[OF all] show ?thesis by simp
  qed
  show ?thesis
    unfolding Let_def using h r e by (simp add: limit_ids_zero processed_all)
qed

theorem search_emails_limit_zero_witness:
  "fst (search_ids example_world (ustr_of ''hello'') INBOX example_session) =
     Inr (1, map ustr_of [''1'', ''2'', ''3'', ''4'', ''5'', ''6'', ''7'']) \<and>
   map ustr_of [''1'', ''2'', ''3'', ''4'', ''5'', ''6'', ''7''] \<noteq> [] \<and>
   history (snd (search_emails example_world (ustr_of ''hello'') INBOX 0 example_session)) =
     history (snd (search_ids example_world (ustr_of ''hello'') INBOX example_session)) @
     map (EFetch 1) (map ustr_of [''1'', ''2'', ''3'', ''4'', ''5'', ''6'', ''7'']) \<and>
   fst (search_emails example_world (ustr_of ''hello'') INBOX 0 example_session) =
     Results
       (map (\<lambda>i. Summary (ustr_of i) (ustr_of ''Hello'') (ustr_of ''a@example.com'')
                    (ustr_of ''Unknown''))
          [''1'', ''2'', ''3'', ''4'', ''5'', ''6'', ''7''])
       7 INBOX"
proof -
  have b: "fst (search_ids example_world (ustr_of ''hello'') INBOX example_session) =
     Inr (1, map ustr_of [''1'', ''2'', ''3'', ''4'', ''5'', ''6'', ''7''])"
    by code_simp
  then have b': "search_ids example_world (ustr_of ''hello'') INBOX example_session =
     (Inr (1, map ustr_of [''1'', ''2'', ''3'', ''4'', ''5'', ''6'', ''7'']),
      snd (search_ids example_world (ustr_of ''hello'') INBOX example_session))"
    by (simp add: prod_eq_iff)
  have n: "map ustr_of [''1'', ''2'', ''3'', ''4'', ''5'', ''6'', ''7''] \<noteq> []" by simp
  have all: "list_all is_entry
             (outcomes example_world 1
                (history (snd (search_ids example_world (ustr_of ''hello'') INBOX example_session)))
                (map ustr_of [''1'', ''2'', ''3'', ''4'', ''5'', ''6'', ''7'']))"
    by code_simp
  have p: "processed (map ustr_of [''1'', ''2'', ''3'', ''4'', ''5'', ''6'', ''7''])
             (outcomes example_world 1
                (history (snd (search_ids example_world (ustr_of ''hello'') INBOX example_session)))
                (map ustr_of [''1'', ''2'', ''3'', ''4'', ''5'', ''6'', ''7''])) =
           map ustr_of [''1'', ''2'', ''3'', ''4'', ''5'', ''6'', ''7'']"
    by code_simp
  have r: "Results (concat (map entries_of
             (outcomes example_world 1
                (history (snd (search_ids example_world (ustr_of ''hello'') INBOX example_session)))
                (map ustr_of [''1'', ''2'', ''3'', ''4'', ''5'', ''6'', ''7'']))))
             (length (map ustr_of [''1'', ''2'', ''3'', ''4'', ''5'', ''6'', ''7''])) INBOX =
           Results
             (map (\<lambda>i. Summary (ustr_of i) (ustr_of ''Hello'') (ustr_of ''a@example.com'')
                          (ustr_of ''Unknown''))
                [''1'', ''2'', ''3'', ''4'', ''5'', ''6'', ''7''])
             7 INBOX"
    by code_simp
  from search_emails_limit_zero[OF b' n] all
  have "history (snd (search_emails example_world (ustr_of ''hello'') INBOX 0 example_session)) =
          history (snd (search_ids example_world (ustr_of ''hello'') INBOX example_session)) @
          map (EFetch 1) (processed (map ustr_of [''1'', ''2'', ''3'', ''4'', ''5'', ''6'', ''7''])
             (outcomes example_world 1
                (history (snd (search_ids example_world (ustr_of ''hello'') INBOX example_session)))
                (map ustr_of [''1'', ''2'', ''3'', ''4'', ''5'', ''6'', ''7'']))) \<and>
        fst (search_emails example_world (ustr_of ''hello'') INBOX 0 example_session) =
          Results (concat (map entries_of
             (outcomes example_world 1
                (history (snd (search_ids example_world (ustr_of ''hello'') INBOX example_session)))
                (map ustr_of [''1'', ''2'', ''3'', ''4'', ''5'', ''6'', ''7'']))))
             (length (map ustr_of [''1'', ''2'', ''3'', ''4'', ''5'', ''6'', ''7''])) INBOX"
    unfolding Let_def by blast
  then show ?thesis unfolding p r using b n by blast
qed

theorem search_emails_limit_zero_counterexample:
  "fst (search_ids example_refusing_world (ustr_of ''hello'') INBOX example_session) =
     Inr (1, map ustr_of [''1'', ''2'', ''3'', ''4'', ''5'', ''6'', ''7'']) \<and>
   limit_ids 0 (map ustr_of [''1'', ''2'', ''3'', ''4'', ''5'', ''6'', ''7'']) =
     map ustr_of [''1'', ''2'', ''3'', ''4'', ''5'', ''6'', ''7''] \<and>
   history (snd (search_emails example_refusing_world (ustr_of ''hello'') INBOX 0 example_session)) =
     history (snd (search_ids example_refusing_world (ustr_of ''hello'') INBOX example_session)) @
     map (EFetch 1) (map ustr_of [''1'', ''2'', ''3'', ''4'', ''5'', ''6'', ''7'']) \<and>
   fst (search_emails example_refusing_world (ustr_of ''hello'') INBOX 0 example_session) =
     No_emails_found (ustr_of ''hello'')"
  by code_simp

section \<open>\<open>search_emails\<close>: the query sent to the server\<close>

lemma py_in_sublist: "py_in xs ys \<longleftrightarrow> sublist xs ys"
  by (induction ys) (simp_all add: sublist_Cons_right)

lemma imap_query_of_cases:
  "imap_query_of w query =
     (if \<exists>x \<in> set KEYWORDS. sublist x (py_upper (unicode_upper w) query) then query
      else ALL_QUERY)"
  by (simp add: imap_query_of_def list_ex_iff py_in_sublist)

lemma searches_append [simp]: "searches (xs @ ys) = searches xs @ searches ys"
  by (induction xs rule: searches.induct) simp_all

lemma probe_searches: "searches (history (snd (probe w s))) = searches (history s)"
  by (simp add: probe_def split: option.splits sum.splits)

lemma login_searches: "searches (history (snd (login w s))) = searches (history s)"
  by (simp add: login_def Let_def split: option.splits sum.splits)

lemma connect_searches:
  "searches (history (snd (connect_to_email w s))) = searches (history s)"
proof -
  obtain alive s1 where p: "probe w s = (alive, s1)" by (cases "probe w s")
  then have "searches (history s1) = searches (history s)"
    using probe_searches[of w s] by simp
  with p login_searches[of w s1] show ?thesis
    by (simp add: connect_to_email_def)
qed

lemma fetch_loop_searches:
  "fetch_loop w c ids results s = (x, s') \<Longrightarrow> searches (history s') = searches (history s)"
proof (induction ids arbitrary: results s)
  case Nil
  then show ?case by simp
next
  case (Cons msg_id ids)
  then show ?case
    by (auto split: sum.splits prod.splits if_splits)
qed

lemma search_ids_searches:
  assumes "search_ids w query folder s = (x, s1)"
  shows "searches (history s1) = searches (history s) @ [imap_query_of w query] \<or>
         (\<exists>r. x = Inl r \<and> is_early r \<and> searches (history s1) = searches (history s))"
proof -
  obtain connected s0 where c: "connect_to_email w s = (connected, s0)"
    by (cases "connect_to_email w s")
  then have h: "searches (history s0) = searches (history s)"
    using connect_searches[of w s] by simp
  from assms c h show ?thesis
    by (auto simp: search_ids_def Let_def split: if_splits option.splits sum.splits prod.splits)
qed

lemma search_emails_searches:
  assumes "search_emails w query folder limit s = (r, s')"
  shows "searches (history s') = searches (history s) @ [imap_query_of w query] \<or>
         (is_early r \<and> searches (history s') = searches (history s))"
proof -
  obtain x s1 where i: "search_ids w query folder s = (x, s1)"
    by (cases "search_ids w query folder s")
  note d = search_ids_searches[OF i]
  show ?thesis
  proof (cases x)
    case (Inl early)
    with assms i d show ?thesis by (auto simp: search_emails_def)
  next
    case (Inr p)
    obtain c ids where p: "p = (c, ids)" by (cases p)
    obtain y s2 where f: "fetch_loop w c (limit_ids limit ids) [] s1 = (y, s2)"
      by (cases "fetch_loop w c (limit_ids limit ids) [] s1")
    from fetch_loop_searches[OF f] have "searches (history s2) = searches (history s1)" .
    with assms i d Inr p f show ?thesis
      by (cases y) (auto simp: search_emails_def split: if_splits)
  qed
qed

lemma search_emails_same_query:
  assumes "imap_query_of w q1 = imap_query_of w q2"
  shows "snd (search_emails w q1 folder limit s) = snd (search_emails w q2 folder limit s) \<and>
         (fst (search_emails w q1 folder limit s) = fst (search_emails w q2 folder limit s) \<or>
          fst (search_emails w q1 folder limit s) = No_emails_found q1 \<and>
          fst (search_emails w q2 folder limit s) = No_emails_found q2)"
proof -
  have "search_ids w q1 folder s = search_ids w q2 folder s"
    unfolding search_ids_def by (subst assms) (rule refl)
  then show ?thesis
    by (auto simp: search_emails_def split: prod.splits sum.splits)
qed

text \<open>
  Claim C5 says that for a query containing none of the keywords (compared in upper
  case) \<open>search_emails\<close> sends the query \<open>ALL\<close> to the search verb, so that it behaves
  identically to a search with the query \<open>ALL\<close>, and that otherwise the query is passed
  through unchanged. The query sent is as claimed, but the behaviour is not quite
  identical: the message for an empty result quotes the query as given (line 318). As
  amended: a call that gets past the folder selection sends exactly one search, with
  \<open>ALL\<close> when the query has no keyword and with the query itself otherwise; without a
  keyword the session it leaves and the result it returns are those of the call with
  the query \<open>ALL\<close>, except that the message for an empty result names the query given.
\<close>

theorem search_emails_query:
  assumes "search_emails w query folder limit s = (r, s')"
  shows "(searches (history s') =
            searches (history s) @
              [if \<exists>x \<in> set KEYWORDS. sublist x (py_upper (unicode_upper w) query) then query
               else ALL_QUERY] \<or>
          is_early r \<and> searches (history s') = searches (history s)) \<and>
         (\<not> (\<exists>x \<in> set KEYWORDS. sublist x (py_upper (unicode_upper w) query)) \<longrightarrow>
            snd (search_emails w ALL_QUERY folder limit s) = s' \<and>
            (fst (search_emails w ALL_QUERY folder limit s) = r \<or>
             r = No_emails_found query \<and>
             fst (search_emails w ALL_QUERY folder limit s) = No_emails_found ALL_QUERY))"
proof -
  have one: "searches (history s') =
            searches (history s) @
              [if \<exists>x \<in> set KEYWORDS. sublist x (py_upper (unicode_upper w) query) then query
               else ALL_QUERY] \<or>
          is_early r \<and> searches (history s') = searches (history s)"
    using search_emails_searches[OF assms] by (simp add: imap_query_of_cases)
  have two: "snd (search_emails w ALL_QUERY folder limit s) = s' \<and>
            (fst (search_emails w ALL_QUERY folder limit s) = r \<or>
             r = No_emails_found query \<and>
             fst (search_emails w ALL_QUERY folder limit s) = No_emails_found ALL_QUERY)"
    if "\<not> (\<exists>x \<in> set KEYWORDS. sublist x (py_upper (unicode_upper w) query))"
  proof -
    have "imap_query_of w query = imap_query_of w ALL_QUERY"
      using that by (simp add: imap_query_of_cases)
    from search_emails_same_query[OF this, of folder limit s] assms show ?thesis
      by auto
  qed
  from one two show ?thesis by blast
qed

theorem search_emails_query_witness:
  "searches (history (snd (search_emails example_world (ustr_of ''hello'') INBOX 2 example_session))) =
     searches (history example_session) @ [ALL_QUERY] \<and>
   search_emails example_world ALL_QUERY INBOX 2 example_session =
     search_emails example_world (ustr_of ''hello'') INBOX 2 example_session \<and>
   searches (history (snd (search_emails example_world (ustr_of ''from bob'') INBOX 2 example_session))) =
     searches (history example_session) @ [ustr_of ''from bob'']"
proof -
  have c: "search_emails example_world q INBOX 2 example_session =
     (fst (search_emails example_world q INBOX 2 example_session),
      snd (search_emails example_world q INBOX 2 example_session))" for q
    by simp
  have e1: "\<not> is_early (fst (search_emails example_world (ustr_of ''hello'') INBOX 2 example_session))"
    by code_simp
  have e2: "\<not> is_early (fst (search_emails example_world (ustr_of ''from bob'') INBOX 2 example_session))"
    by code_simp
  have k1: "\<not> (\<exists>x \<in> set KEYWORDS. sublist x (py_upper (unicode_upper example_world) (ustr_of ''hello'')))"
    unfolding Bex_def[symmetric] list_ex_iff[symmetric] by code_simp
  have k2: "\<exists>x \<in> set KEYWORDS. sublist x (py_upper (unicode_upper example_world) (ustr_of ''from bob''))"
    unfolding list_ex_iff[symmetric] by code_simp
  have n: "fst (search_emails example_world (ustr_of ''hello'') INBOX 2 example_session) \<noteq>
           No_emails_found (ustr_of ''hello'')"
    by code_simp
  from search_emails_query[OF c[of "ustr_of ''hello''"]] e1 k1 n
  have h1: "searches (history (snd (search_emails example_world (ustr_of ''hello'') INBOX 2 example_session))) =
     searches (history example_session) @ [ALL_QUERY]"
    and h2: "search_emails example_world ALL_QUERY INBOX 2 example_session =
     search_emails example_world (ustr_of ''hello'') INBOX 2 example_session"
    by (auto simp: prod_eq_iff)
  from search_emails_query[OF c[of "ustr_of ''from bob''"]] e2 k2
  have h3: "searches (history (snd (search_emails example_world (ustr_of ''from bob'') INBOX 2 example_session))) =
     searches (history example_session) @ [ustr_of ''from bob'']"
    by auto
  from h1 h2 h3 show ?thesis by blast
qed

theorem search_emails_echo_counterexample:
  "\<not> list_ex (\<lambda>x. py_in x (py_upper (unicode_upper example_empty_world) (ustr_of ''hello'')))
        KEYWORDS \<and>
   fst (search_emails example_empty_world (ustr_of ''hello'') INBOX 10 example_session) =
     No_emails_found (ustr_of ''hello'') \<and>
   fst (search_emails example_empty_world ALL_QUERY INBOX 10 example_session) =
     No_emails_found ALL_QUERY \<and>
   fst (search_emails example_empty_world (ustr_of ''hello'') INBOX 10 example_session) \<noteq>
   fst (search_emails example_empty_world ALL_QUERY INBOX 10 example_session)"
  by code_simp

end
